theory Spec2Isabelle
  imports Complex_Main
begin

section \<open>The remote media import pipeline of gifselector\<close>

text \<open>
  The handler of \<^verbatim>\<open>POST /api/import\<close> (\<^verbatim>\<open>src/backend/src/auth.js\<close>, lines 459 to
  765, the router module) is embedded as a function over an explicit world. Everything the
  handler asks of Node, of the operating system and of the network is a field of the
  record \<open>env\<close>: the pure library functions (\<^verbatim>\<open>new URL\<close>, \<^verbatim>\<open>path.extname\<close>, ...)
  as functions, the effectful calls (\<^verbatim>\<open>mkdir\<close>, \<^verbatim>\<open>execFile\<close>, \<^verbatim>\<open>fetch\<close>, ...) as
  functions from the world to an outcome and the next world, and the module
  \<^verbatim>\<open>valid-domains\<close> and \<^verbatim>\<open>config.UPLOAD_DIR\<close> as values. A rejected promise or a
  thrown exception is \<open>Inl message\<close> (the \<^verbatim>\<open>err.message\<close> the handler stores), a
  fulfilled one is \<open>Inr value\<close>. Every effectful call appends an event to a trace, so
  that "the downloader is not invoked" or "no asset is persisted" are statements about
  the trace. Each external call is assumed to settle; the source sets no timeout.
  Strings are lists of 8-bit characters.
\<close>

subsection \<open>Data\<close>

text \<open>A value of the parsed JSON body. Numbers carry no arithmetic here.\<close>

datatype json =
    JNull
  | JBool bool
  | JNum int
  | JStr string
  | JArr "json list"
  | JObj "(string \<times> json) list"

text \<open>\<^verbatim>\<open>const result = { url: urlStr, success: false }\<close>; \<open>None\<close> is an absent field.\<close>

record import_result =
  url :: json
  success :: bool
  slug :: "string option"
  error :: "string option"

text \<open>The argument of \<^verbatim>\<open>addGif\<close>. \<open>mimeType = None\<close> is \<^verbatim>\<open>undefined\<close>.\<close>

record asset =
  asset_slug :: string
  filename :: string
  originalName :: string
  mimeType :: "string option"
  sizeBytes :: nat

text \<open>What the handler reads of a \<^verbatim>\<open>fetch\<close> response; header names are lower case.\<close>

record fetch_response =
  ok :: bool
  status :: nat
  statusText :: string
  headers :: "string \<Rightarrow> string option"

text \<open>The result of \<^verbatim>\<open>Number(s)\<close>.\<close>

datatype jsnum = NaN | NegInfinity | Num real | Infinity

text \<open>
  The directory tree below the workspace as \<^verbatim>\<open>readdir(dir, {withFileTypes: true})\<close>
  shows it: a listing fails or gives entries, an entry is a directory (with its own
  listing) or anything else.
\<close>

datatype dirent = FileEnt string | DirEnt string listing
and listing = ReaddirError string | Listing "dirent list"

text \<open>
  The calls the handler makes, with their arguments: \<open>EvExecFile\<close> is
  \<^verbatim>\<open>execFilePromise(file, args)\<close>, \<open>EvFetch\<close> a \<^verbatim>\<open>fetch\<close> with its user agent,
  \<open>EvReadBody\<close> the reading of a response body (\<^verbatim>\<open>text()\<close> or \<^verbatim>\<open>arrayBuffer()\<close>),
  \<open>EvRm p\<close> is \<^verbatim>\<open>fsPromises.rm(p, {recursive: true, force: true})\<close>, the others
  are the calls of \<^verbatim>\<open>fsPromises\<close> and \<^verbatim>\<open>addGif\<close> of their names.
\<close>

datatype event =
    EvMkdir string
  | EvExecFile string "json list"
  | EvFetch json string
  | EvReadBody
  | EvWriteFile string string
  | EvAccess string
  | EvStat string
  | EvCopyFile string string
  | EvAddGif asset
  | EvRm string

type_synonym 'a outcome = "string + 'a"

text \<open>
  The environment. \<open>url_hostname v\<close> is the \<^verbatim>\<open>hostname\<close> of \<^verbatim>\<open>new URL(v)\<close>, \<open>None\<close>
  where the constructor throws; \<open>url_pathname\<close> is its \<^verbatim>\<open>pathname\<close>, with the
  message of the exception otherwise. \<open>match_meta html prop\<close> is the first group of
  the match of \<^verbatim>\<open>extractMeta\<close>'s regular expression for \<open>prop\<close>, \<open>None\<close> for no match.
  \<open>nanoid None\<close> is \<^verbatim>\<open>nanoid()\<close> and \<open>nanoid (Some n)\<close> is \<^verbatim>\<open>nanoid(n)\<close>.
  \<open>readdir_tree dir\<close> is what the nested \<^verbatim>\<open>readdir\<close> calls of \<^verbatim>\<open>findFiles(dir)\<close>
  see. \<open>stat\<close> gives \<^verbatim>\<open>stats.size\<close>. The arguments of \<open>execFile\<close> and the first
  argument of \<open>fetch\<close> are JSON values, since the element of \<^verbatim>\<open>urls\<close> is passed on
  as it came.
\<close>

record 'w env =
  validDomains :: "string list"
  UPLOAD_DIR :: string
  tmpdir :: string
  url_hostname :: "json \<Rightarrow> string option"
  url_pathname :: "string \<Rightarrow> string outcome"
  path_join :: "string \<Rightarrow> string \<Rightarrow> string"
  path_extname :: "string \<Rightarrow> string"
  path_basename :: "string \<Rightarrow> string"
  toLowerCase :: "string \<Rightarrow> string"
  Number :: "string \<Rightarrow> jsnum"
  match_meta :: "string \<Rightarrow> string \<Rightarrow> string option"
  nanoid :: "nat option \<Rightarrow> 'w \<Rightarrow> string \<times> 'w"
  Date_now :: "'w \<Rightarrow> nat \<times> 'w"
  mkdir :: "string \<Rightarrow> 'w \<Rightarrow> unit outcome \<times> 'w"
  execFile :: "string \<Rightarrow> json list \<Rightarrow> 'w \<Rightarrow> unit outcome \<times> 'w"
  fetch :: "json \<Rightarrow> string \<Rightarrow> 'w \<Rightarrow> fetch_response outcome \<times> 'w"
  resp_text :: "fetch_response \<Rightarrow> 'w \<Rightarrow> string outcome \<times> 'w"
  resp_arrayBuffer :: "fetch_response \<Rightarrow> 'w \<Rightarrow> string outcome \<times> 'w"
  writeFile :: "string \<Rightarrow> string \<Rightarrow> 'w \<Rightarrow> unit outcome \<times> 'w"
  readdir_tree :: "string \<Rightarrow> 'w \<Rightarrow> listing"
  access :: "string \<Rightarrow> 'w \<Rightarrow> unit outcome \<times> 'w"
  stat :: "string \<Rightarrow> 'w \<Rightarrow> nat outcome \<times> 'w"
  copyFile :: "string \<Rightarrow> string \<Rightarrow> 'w \<Rightarrow> unit outcome \<times> 'w"
  addGif :: "asset \<Rightarrow> 'w \<Rightarrow> unit outcome \<times> 'w"
  rm :: "string \<Rightarrow> 'w \<Rightarrow> unit outcome \<times> 'w"

text \<open>The state of one URL's processing: the world, the calls made so far, and \<^verbatim>\<open>result\<close>.\<close>

record 'w pstate =
  world :: 'w
  trace :: "event list"
  result :: import_result

type_synonym ('a, 'w) io = "'w pstate \<Rightarrow> 'a outcome \<times> 'w pstate"

definition return_io :: "'a \<Rightarrow> ('a, 'w) io" where
  "return_io x s = (Inr x, s)"

definition throw_io :: "string \<Rightarrow> ('a, 'w) io" where
  "throw_io m s = (Inl m, s)"

definition bind_io :: "('a, 'w) io \<Rightarrow> ('a \<Rightarrow> ('b, 'w) io) \<Rightarrow> ('b, 'w) io" where
  "bind_io m f s = (case m s of (Inl e, s') \<Rightarrow> (Inl e, s') | (Inr x, s') \<Rightarrow> f x s')"


definition try_catch :: "('a, 'w) io \<Rightarrow> (string \<Rightarrow> ('a, 'w) io) \<Rightarrow> ('a, 'w) io" where
  "try_catch m handler s = (case m s of (Inl e, s') \<Rightarrow> handler e s' | (Inr x, s') \<Rightarrow> (Inr x, s'))"

text \<open>\<^verbatim>\<open>try { m } finally { fin }\<close>: \<open>fin\<close> runs whatever \<open>m\<close> did; an error of \<open>fin\<close> replaces the outcome.\<close>

definition try_finally :: "('a, 'w) io \<Rightarrow> (unit, 'w) io \<Rightarrow> ('a, 'w) io" where
  "try_finally m fin s =
     (case m s of (r, s') \<Rightarrow>
        (case fin s' of (Inl e, s'') \<Rightarrow> (Inl e, s'') | (Inr u, s'') \<Rightarrow> (r, s'')))"

text \<open>An awaited call of the environment: the event is logged, the world moves on.\<close>

definition call :: "event \<Rightarrow> ('w \<Rightarrow> 'a outcome \<times> 'w) \<Rightarrow> ('a, 'w) io" where
  "call ev operation s =
     (case operation (world s) of (r, w') \<Rightarrow> (r, s\<lparr>world := w', trace := trace s @ [ev]\<rparr>))"

text \<open>A call that cannot fail and leaves nothing behind (\<^verbatim>\<open>nanoid\<close>, \<^verbatim>\<open>Date.now\<close>).\<close>

definition sample :: "('w \<Rightarrow> 'a \<times> 'w) \<Rightarrow> ('a, 'w) io" where
  "sample operation s = (case operation (world s) of (x, w') \<Rightarrow> (Inr x, s\<lparr>world := w'\<rparr>))"

subsection \<open>Constants and string helpers\<close>

definition MAX_DOWNLOAD_SIZE :: nat where
  "MAX_DOWNLOAD_SIZE = 15 * 1024 * 1024"

definition ALLOWED_EXTENSIONS :: "string list" where
  "ALLOWED_EXTENSIONS = [''.gif'', ''.webp'']"

definition EXTENSION_MIME_MAP :: "string \<Rightarrow> string option" where
  "EXTENSION_MIME_MAP = map_of [(''.gif'', ''image/gif''), (''.webp'', ''image/webp'')]"

definition endsWith :: "string \<Rightarrow> string \<Rightarrow> bool" where
  "endsWith s suffix \<longleftrightarrow>
     length suffix \<le> length s \<and> drop (length s - length suffix) s = suffix"

fun str_includes :: "string \<Rightarrow> string \<Rightarrow> bool" where
  "str_includes [] p = (p = [])"
| "str_includes (c # cs) p = (take (length p) (c # cs) = p \<or> str_includes cs p)"

text \<open>JavaScript truthiness of a string-or-null, and \<^verbatim>\<open>a || b\<close> on such values.\<close>

definition truthy :: "string option \<Rightarrow> bool" where
  "truthy v = (case v of None \<Rightarrow> False | Some s \<Rightarrow> s \<noteq> [])"

definition js_or :: "string option \<Rightarrow> string option \<Rightarrow> string option" where
  "js_or a b = (if truthy a then a else b)"

text \<open>\<^verbatim>\<open>Number(x) > n\<close> for a natural number \<open>n\<close>; every comparison with NaN is false.\<close>

fun js_gt :: "jsnum \<Rightarrow> nat \<Rightarrow> bool" where
  "js_gt NaN n = False"
| "js_gt NegInfinity n = False"
| "js_gt (Num v) n = (real n < v)"
| "js_gt Infinity n = True"

text \<open>The decimal rendering of a non-negative integer in a template literal.\<close>

definition digit_char :: "nat \<Rightarrow> char" where
  "digit_char d = ''0123456789'' ! d"

function string_of_nat :: "nat \<Rightarrow> string" where
  "string_of_nat n =
     (if n < 10 then [digit_char n] else string_of_nat (n div 10) @ [digit_char (n mod 10)])"
  by pat_completeness auto
termination
  by (relation "measure id") auto

declare string_of_nat.simps [simp del]

text \<open>\<^verbatim>\<open>mediaUrl.replace(/&amp;/g, "&")\<close>: every occurrence, left to right.\<close>

fun replace_amp :: "string \<Rightarrow> string" where
  "replace_amp [] = []"
| "replace_amp (c # cs) =
     (if c = CHR ''&'' \<and> take 4 cs = ''amp;'' then CHR ''&'' # replace_amp (drop 4 cs)
      else c # replace_amp cs)"

text \<open>
  \<^verbatim>\<open>filePath.replace(new RegExp(`${ext}$`, "i"), repl)\<close> for \<open>ext\<close> one of \<^verbatim>\<open>.gif\<close>,
  \<^verbatim>\<open>.mp4\<close>: the pattern has the length of \<open>ext\<close> and is anchored at the end, its dot
  matches any character but a line terminator, its letters match without regard to case.
  Where the last characters of the path do not match, the path is returned as it is.
\<close>

definition ascii_lower :: "char \<Rightarrow> char" where
  "ascii_lower c =
     (case map_of (zip ''ABCDEFGHIJKLMNOPQRSTUVWXYZ'' ''abcdefghijklmnopqrstuvwxyz'') c of
        None \<Rightarrow> c | Some l \<Rightarrow> l)"

definition regex_char_match :: "char \<Rightarrow> char \<Rightarrow> bool" where
  "regex_char_match p c =
     (if p = CHR ''.'' then c \<noteq> CHR 0x0A \<and> c \<noteq> CHR 0x0D else ascii_lower p = ascii_lower c)"

definition replace_ext :: "string \<Rightarrow> string \<Rightarrow> string \<Rightarrow> string" where
  "replace_ext filePath ext repl =
     (let n = length filePath - length ext in
      if length ext \<le> length filePath \<and> list_all2 regex_char_match ext (drop n filePath)
      then take n filePath @ repl else filePath)"


subsection \<open>URL validation\<close>

text \<open>
  \<^verbatim>\<open>validDomains.some((domain) => url.hostname === domain || url.hostname.endsWith("." + domain))\<close>.
  The list \<^verbatim>\<open>valid-domains\<close> is a field of the environment.
\<close>

definition isAllowed :: "string list \<Rightarrow> string \<Rightarrow> bool" where
  "isAllowed domains hostname =
     list_ex (\<lambda>domain. hostname = domain \<or> endsWith hostname (''.'' @ domain)) domains"

subsection \<open>Acquisition\<close>

text \<open>
  \<^verbatim>\<open>extractMeta(prop)\<close> matches the page against the pattern
  \<^verbatim>\<open><meta\s+(?:property|name)=["']prop["']\s+content=["']([^"']+)["']\<close> without regard to
  case and gives the first group of the first match, or null; the regular expression
  engine is the environment's \<open>match_meta\<close>.
\<close>

definition extractMeta :: "'w env \<Rightarrow> string \<Rightarrow> string \<Rightarrow> string option" where
  "extractMeta env html prop = match_meta env html prop"

definition guess_ext :: "'w env \<Rightarrow> string \<Rightarrow> string option \<Rightarrow> string" where
  "guess_ext env pathname contentType =
     (let ext = path_extname env pathname;
          ext = (if ext = [] \<or> 5 < length ext then
                   (let cType = (if truthy contentType then the contentType else [])
                    in if str_includes cType ''video/mp4'' then ''.mp4''
                       else if str_includes cType ''image/gif'' then ''.gif''
                       else if str_includes cType ''image/webp'' then ''.webp''
                       else ext)
                 else ext)
      in if ext = [] then ''.gif'' else ext)"

text \<open>The \<^verbatim>\<open>catch (dlError)\<close> block: scrape the page's metadata and fetch the media.\<close>

definition fallback :: "'w env \<Rightarrow> json \<Rightarrow> string \<Rightarrow> (unit, 'w) io" where
  "fallback env urlStr tempDir =
     bind_io (call (EvFetch urlStr ''Mozilla/5.0 (compatible; GifSelector/1.0; +http://localhost)'')
                (fetch env urlStr ''Mozilla/5.0 (compatible; GifSelector/1.0; +http://localhost)''))
     (\<lambda>pageResp.
       if \<not> ok pageResp then
         throw_io (''Fallback fetch failed: '' @ string_of_nat (status pageResp) @ '' ''
                   @ statusText pageResp)
       else
     bind_io (call EvReadBody (resp_text env pageResp))
     (\<lambda>html.
       let found = js_or (extractMeta env html ''og:video'')
                    (js_or (extractMeta env html ''og:video:url'')
                      (js_or (extractMeta env html ''og:image'')
                        (extractMeta env html ''twitter:image'')))
       in if \<not> truthy found then throw_io ''No media found via metadata fallback''
       else
       let mediaUrl = replace_amp (the found) in
     bind_io (call (EvFetch (JStr mediaUrl) ''GifSelector/1.0'')
                (fetch env (JStr mediaUrl) ''GifSelector/1.0''))
     (\<lambda>mediaResp.
       if \<not> ok mediaResp then
         throw_io (''Fallback download failed: '' @ string_of_nat (status mediaResp))
       else
       let contentLength = headers mediaResp ''content-length'' in
       if truthy contentLength \<and> js_gt (Number env (the contentLength)) MAX_DOWNLOAD_SIZE
       then throw_io ''Fallback media file too large''
       else
     bind_io (call EvReadBody (resp_arrayBuffer env mediaResp))
     (\<lambda>buffer.
       if MAX_DOWNLOAD_SIZE < length buffer then throw_io ''Fallback media file too large''
       else
       (case url_pathname env mediaUrl of
          Inl e \<Rightarrow> throw_io e
        | Inr pathname \<Rightarrow>
            let ext = guess_ext env pathname (headers mediaResp ''content-type'');
                savePath = path_join env tempDir (''fallback-download'' @ ext)
            in call (EvWriteFile savePath buffer) (writeFile env savePath buffer))))))"

text \<open>\<^verbatim>\<open>try { await execFilePromise("gallery-dl", ...) } catch (dlError) { fallback }\<close>.\<close>

definition acquire :: "'w env \<Rightarrow> json \<Rightarrow> string \<Rightarrow> (unit, 'w) io" where
  "acquire env urlStr tempDir =
     try_catch
       (call (EvExecFile ''gallery-dl'' [JStr ''--directory'', JStr tempDir, urlStr])
          (execFile env ''gallery-dl'' [JStr ''--directory'', JStr tempDir, urlStr]))
       (\<lambda>dlError. fallback env urlStr tempDir)"

subsection \<open>Classification\<close>

text \<open>
  \<^verbatim>\<open>findFiles(dir)\<close>: the files below \<open>dir\<close>, depth first, in the order of the listings;
  a failing \<^verbatim>\<open>readdir\<close> at any depth fails the whole walk.
\<close>

fun findFiles :: "(string \<Rightarrow> string \<Rightarrow> string) \<Rightarrow> string \<Rightarrow> listing \<Rightarrow> string list outcome"
and findEntries :: "(string \<Rightarrow> string \<Rightarrow> string) \<Rightarrow> string \<Rightarrow> dirent list \<Rightarrow> string list outcome"
where
  "findFiles join dir (ReaddirError e) = Inl e"
| "findFiles join dir (Listing entries) = findEntries join dir entries"
| "findEntries join dir [] = Inr []"
| "findEntries join dir (FileEnt name # entries) =
     (case findEntries join dir entries of
        Inl e \<Rightarrow> Inl e
      | Inr files \<Rightarrow> Inr (join dir name # files))"
| "findEntries join dir (DirEnt name sub # entries) =
     (case findFiles join (join dir name) sub of
        Inl e \<Rightarrow> Inl e
      | Inr below \<Rightarrow>
          (case findEntries join dir entries of
             Inl e \<Rightarrow> Inl e
           | Inr files \<Rightarrow> Inr (below @ files)))"

definition list_files :: "'w env \<Rightarrow> string \<Rightarrow> (string list, 'w) io" where
  "list_files env dir s = (findFiles (path_join env) dir (readdir_tree env dir (world s)), s)"


subsection \<open>Conversion\<close>

text \<open>The two awaited statements of every strategy: run the tool, then check its output exists.\<close>

definition run_tool :: "'w env \<Rightarrow> string \<Rightarrow> string list \<Rightarrow> string \<Rightarrow> (unit, 'w) io" where
  "run_tool env tool args output =
     bind_io (call (EvExecFile tool (map JStr args)) (execFile env tool (map JStr args)))
       (\<lambda>u. call (EvAccess output) (access env output))"

definition ffmpeg_webp_args :: "string \<Rightarrow> string \<Rightarrow> string list" where
  "ffmpeg_webp_args filePath webpPath =
     [''-y'', ''-i'', filePath, ''-vcodec'', ''libwebp'', ''-loop'', ''0'',
      ''-compression_level'', ''4'', ''-q:v'', ''75'', ''-an'', webpPath]"

definition magick_args :: "string \<Rightarrow> string \<Rightarrow> string list" where
  "magick_args filePath webpPath = [filePath, ''-coalesce'', ''-quality'', ''80'', webpPath]"

text \<open>
  Lines 607 to 712 of the handler: from the file and its lower-cased extension to
  \<^verbatim>\<open>(finalFilePath, finalExt, finalMimeType)\<close>. No failure of a tool leaves this block.
\<close>

definition convert ::
  "'w env \<Rightarrow> string \<Rightarrow> string \<Rightarrow> bool \<Rightarrow> (string \<times> string \<times> string option, 'w) io" where
  "convert env filePath ext isMp4 =
     (let unconverted =
            (filePath, ext, if isMp4 then Some ''video/mp4'' else EXTENSION_MIME_MAP ext)
      in
      if ext = ''.gif'' \<or> isMp4 then
        let webpPath = replace_ext filePath ext ''.webp'' in
        bind_io
          (if isMp4 then
             try_catch
               (bind_io (run_tool env ''ffmpeg'' (ffmpeg_webp_args filePath webpPath) webpPath)
                  (\<lambda>u. return_io True))
               (\<lambda>e. return_io False)
           else return_io False)
        (\<lambda>conversionSuccess.
        bind_io
          (if \<not> conversionSuccess then
             try_catch
               (bind_io (run_tool env ''magick'' (magick_args filePath webpPath) webpPath)
                  (\<lambda>u. return_io True))
               (\<lambda>errMagick.
                  try_catch
                    (bind_io (run_tool env ''convert'' (magick_args filePath webpPath) webpPath)
                       (\<lambda>u. return_io True))
                    (\<lambda>errConvert. return_io False))
           else return_io conversionSuccess)
        (\<lambda>conversionSuccess.
          if conversionSuccess then return_io (webpPath, ''.webp'', Some ''image/webp'')
          else if isMp4 then
            let gifPath = replace_ext filePath ext ''.gif'' in
            try_catch
              (bind_io (run_tool env ''ffmpeg'' [''-y'', ''-i'', filePath, gifPath] gifPath)
                 (\<lambda>u. return_io (gifPath, ''.gif'', Some ''image/gif'')))
              (\<lambda>e. return_io unconverted)
          else return_io unconverted))
      else return_io unconverted)"

subsection \<open>Persisting, and the loop over the downloaded files\<close>

definition set_success :: "string \<Rightarrow> (unit, 'w) io" where
  "set_success sl s = (Inr (), s\<lparr>result := (result s)\<lparr>success := True, slug := Some sl\<rparr>\<rparr>)"

text \<open>
  Lines 714 to 744: the size check and the storing of the final artifact. The value is
  \<^verbatim>\<open>foundValid\<close> afterwards: \<open>False\<close> where the source says \<^verbatim>\<open>continue\<close>.
\<close>

definition persist ::
  "'w env \<Rightarrow> string \<Rightarrow> string \<times> string \<times> string option \<Rightarrow> (bool, 'w) io" where
  "persist env filePath =
     (\<lambda>(finalFilePath, finalExt, finalMimeType).
        if finalExt = ''.mp4'' then return_io False
        else
      bind_io (call (EvStat finalFilePath) (stat env finalFilePath))
      (\<lambda>size.
        if MAX_DOWNLOAD_SIZE < size then return_io False
        else
      bind_io (sample (Date_now env))
      (\<lambda>now.
      bind_io (sample (nanoid env (Some 6)))
      (\<lambda>suffix.
        let uniqueName = string_of_nat now @ ''-'' @ suffix @ finalExt;
            savePath = path_join env (UPLOAD_DIR env) uniqueName
        in
      bind_io (call (EvCopyFile finalFilePath savePath) (copyFile env finalFilePath savePath))
      (\<lambda>u.
      bind_io (sample (nanoid env (Some 10)))
      (\<lambda>new_slug.
        let stored = \<lparr>asset_slug = new_slug, filename = uniqueName,
                       originalName = path_basename env filePath,
                       mimeType = finalMimeType, sizeBytes = size\<rparr>
        in
      bind_io (call (EvAddGif stored) (addGif env stored))
      (\<lambda>u.
      bind_io (set_success new_slug)
      (\<lambda>u. return_io True))))))))"

text \<open>
  One iteration of \<^verbatim>\<open>for (const filePath of downloadedFiles)\<close> past the \<^verbatim>\<open>break\<close>:
  files of another extension are passed over, the others converted and stored.
\<close>

definition process_file :: "'w env \<Rightarrow> string \<Rightarrow> (bool, 'w) io" where
  "process_file env filePath =
     (let ext = toLowerCase env (path_extname env filePath);
          isMp4 = (ext = ''.mp4'')
      in
      if ext \<notin> set ALLOWED_EXTENSIONS \<and> \<not> isMp4 then return_io False
      else bind_io (convert env filePath ext isMp4) (persist env filePath))"

fun process_files :: "'w env \<Rightarrow> string list \<Rightarrow> bool \<Rightarrow> (bool, 'w) io" where
  "process_files env [] foundValid = return_io foundValid"
| "process_files env (filePath # rest) foundValid =
     (if foundValid then return_io foundValid
      else bind_io (process_file env filePath) (process_files env rest))"

text \<open>Lines 589 to 751: list the workspace, run the loop, throw when nothing was stored.\<close>

definition process_downloaded :: "'w env \<Rightarrow> string \<Rightarrow> (unit, 'w) io" where
  "process_downloaded env tempDir =
     bind_io (list_files env tempDir)
     (\<lambda>downloadedFiles.
       if length downloadedFiles = 0 then throw_io ''No files downloaded by gallery-dl''
       else
     bind_io (process_files env downloadedFiles False)
     (\<lambda>foundValid.
       if \<not> foundValid \<and> 0 < length downloadedFiles
       then throw_io ''Downloaded files were not valid GIFs/WebPs or were too large.''
       else return_io ()))"

subsection \<open>One URL, and the handler\<close>

text \<open>The body of the outer \<^verbatim>\<open>try\<close> for one element of \<^verbatim>\<open>urls\<close>.\<close>

definition import_url :: "'w env \<Rightarrow> json \<Rightarrow> (unit, 'w) io" where
  "import_url env urlStr =
     (case url_hostname env urlStr of
        None \<Rightarrow> throw_io ''Invalid URL''
      | Some hostname \<Rightarrow>
          if \<not> isAllowed (validDomains env) hostname then throw_io ''Domain not whitelisted''
          else
          bind_io (sample (nanoid env None))
          (\<lambda>ident.
            let tempDir = path_join env (tmpdir env) (''gifselector-import-'' @ ident) in
          bind_io (call (EvMkdir tempDir) (mkdir env tempDir))
          (\<lambda>u.
            try_finally
              (bind_io (acquire env urlStr tempDir) (\<lambda>u. process_downloaded env tempDir))
              (try_catch (call (EvRm tempDir) (rm env tempDir)) (\<lambda>e. return_io ())))))"

text \<open>
  One iteration of \<^verbatim>\<open>for (const urlStr of urls)\<close>: a fresh \<^verbatim>\<open>result\<close>, the \<^verbatim>\<open>try\<close>,
  \<^verbatim>\<open>catch (err) { result.error = err.message }\<close>, and the entry pushed onto \<^verbatim>\<open>results\<close>.
\<close>

definition process_url ::
  "'w env \<Rightarrow> json \<Rightarrow> 'w \<times> event list \<Rightarrow> import_result \<times> 'w \<times> event list" where
  "process_url env urlStr st =
     (case import_url env urlStr
             \<lparr>world = fst st, trace = snd st,
              result = \<lparr>url = urlStr, success = False, slug = None, error = None\<rparr>\<rparr> of
        (Inl message, s) \<Rightarrow> ((result s)\<lparr>error := Some message\<rparr>, world s, trace s)
      | (Inr u, s) \<Rightarrow> (result s, world s, trace s))"

fun process_urls ::
  "'w env \<Rightarrow> json list \<Rightarrow> 'w \<times> event list \<Rightarrow> import_result list \<times> 'w \<times> event list" where
  "process_urls env [] st = ([], st)"
| "process_urls env (urlStr # rest) st =
     (case process_url env urlStr st of
        (r, st') \<Rightarrow> (case process_urls env rest st' of (rs, st'') \<Rightarrow> (r # rs, st'')))"

datatype payload = ErrorBody string | ResultsBody "import_result list"

record response =
  code :: nat
  body :: payload

text \<open>
  The handler after \<^verbatim>\<open>authMiddleware\<close> and \<^verbatim>\<open>express.json()\<close>: \<open>req_body\<close> maps a key of
  the parsed body (an object) to its value, \<open>None\<close> for a key it does not have.
  \<^verbatim>\<open>res.json\<close> answers with status 200. The third component is the trace of the request.
\<close>

definition import_handler ::
  "'w env \<Rightarrow> (string \<Rightarrow> json option) \<Rightarrow> 'w \<Rightarrow> response \<times> 'w \<times> event list" where
  "import_handler env req_body w =
     (case req_body ''urls'' of
        Some (JArr urls) \<Rightarrow>
          (case process_urls env urls (w, []) of
             (results, st) \<Rightarrow> (\<lparr>code = 200, body = ResultsBody results\<rparr>, st))
      | _ \<Rightarrow> (\<lparr>code = 400, body = ErrorBody ''urls must be an array''\<rparr>, w, []))"


subsection \<open>Vocabulary of the properties\<close>

text \<open>Every run of \<open>m\<close> appends events to the trace, all of them satisfying \<open>P\<close>.\<close>

definition emits :: "(event \<Rightarrow> bool) \<Rightarrow> ('a, 'w) io \<Rightarrow> bool" where
  "emits P m \<longleftrightarrow> (\<forall>s. \<exists>evs. trace (snd (m s)) = trace s @ evs \<and> list_all P evs)"

text \<open>No run of \<open>m\<close> changes \<^verbatim>\<open>result\<close>.\<close>

definition keeps :: "('a, 'w) io \<Rightarrow> bool" where
  "keeps m \<longleftrightarrow> (\<forall>s. result (snd (m s)) = result s)"

text \<open>Every value \<open>m\<close> returns satisfies \<open>V\<close>.\<close>

definition returns :: "('a \<Rightarrow> bool) \<Rightarrow> ('a, 'w) io \<Rightarrow> bool" where
  "returns V m \<longleftrightarrow> (\<forall>s x s'. m s = (Inr x, s') \<longrightarrow> V x)"

text \<open>No run of \<open>m\<close> ends in an error.\<close>

definition total :: "('a, 'w) io \<Rightarrow> bool" where
  "total m \<longleftrightarrow> (\<forall>s. \<exists>x. fst (m s) = Inr x)"

text \<open>The calls of a conversion strategy.\<close>

definition is_tool :: "event \<Rightarrow> bool" where
  "is_tool ev = (case ev of EvExecFile t a \<Rightarrow> True | EvAccess p \<Rightarrow> True | _ \<Rightarrow> False)"

text \<open>What the conversion block can hand to the storing block.\<close>

definition image_kind :: "string \<times> string \<times> string option \<Rightarrow> bool" where
  "image_kind x = (case x of (p, e, m) \<Rightarrow>
     e = ''.mp4'' \<or> e = ''.webp'' \<and> m = Some ''image/webp'' \<or> e = ''.gif'' \<and> m = Some ''image/gif'')"

text \<open>The calls of the fallback.\<close>

definition is_net :: "event \<Rightarrow> bool" where
  "is_net ev = (case ev of EvFetch u a \<Rightarrow> True | EvReadBody \<Rightarrow> True | EvWriteFile p b \<Rightarrow> True | _ \<Rightarrow> False)"

text \<open>The slugs of the assets handed to \<^verbatim>\<open>addGif\<close>, in order.\<close>

definition stored_slugs :: "event list \<Rightarrow> string list" where
  "stored_slugs evs = concat (map (\<lambda>ev. case ev of EvAddGif a \<Rightarrow> [asset_slug a] | _ \<Rightarrow> []) evs)"

text \<open>Between \<open>s\<close> and \<open>s'\<close> an asset was recorded and \<^verbatim>\<open>result\<close> set to success with its slug, drawn by \<^verbatim>\<open>nanoid(10)\<close>.\<close>

definition stored :: "'w env \<Rightarrow> 'w pstate \<Rightarrow> 'w pstate \<Rightarrow> bool" where
  "stored env s s' \<longleftrightarrow>
     (\<exists>sl w. result s' = (result s)\<lparr>success := True, slug := Some sl\<rparr> \<and>
             sl \<in> set (stored_slugs (trace s')) \<and> sl = fst (nanoid env (Some 10) w))"

text \<open>The calls of the storing block.\<close>

definition is_store :: "event \<Rightarrow> bool" where
  "is_store ev = (case ev of EvStat p \<Rightarrow> True | EvCopyFile a b \<Rightarrow> True | EvAddGif a \<Rightarrow> True | _ \<Rightarrow> False)"

text \<open>An asset handed to \<^verbatim>\<open>addGif\<close> is within the size cap and is a WebP or a GIF by MIME type and file name.\<close>

definition storable :: "event \<Rightarrow> bool" where
  "storable ev =
     (case ev of
        EvAddGif a \<Rightarrow>
          sizeBytes a \<le> MAX_DOWNLOAD_SIZE \<and>
          (mimeType a = Some ''image/webp'' \<and> endsWith (filename a) ''.webp'' \<or>
           mimeType a = Some ''image/gif'' \<and> endsWith (filename a) ''.gif'')
      | _ \<Rightarrow> True)"

text \<open>The calls of the loop over the downloaded files.\<close>

definition loop_event :: "event \<Rightarrow> bool" where
  "loop_event ev \<longleftrightarrow> (is_tool ev \<or> is_store ev) \<and> storable ev"

text \<open>The calls of the acquisition.\<close>

definition is_acquire :: "event \<Rightarrow> bool" where
  "is_acquire ev \<longleftrightarrow> is_net ev \<or> (\<exists>args. ev = EvExecFile ''gallery-dl'' args)"

text \<open>The shape of an entry of \<^verbatim>\<open>results\<close>, against the trace of the request.\<close>

definition well_formed :: "'w env \<Rightarrow> event list \<Rightarrow> import_result \<Rightarrow> bool" where
  "well_formed env tr r \<longleftrightarrow>
     (success r \<longleftrightarrow> error r = None) \<and>
     (success r \<longrightarrow>
        (\<exists>sl w. slug r = Some sl \<and> sl \<in> set (stored_slugs tr) \<and>
                sl = fst (nanoid env (Some 10) w))) \<and>
     (\<not> success r \<longrightarrow> slug r = None \<and> error r \<noteq> None)"

text \<open>
  Over the events \<open>evs\<close>, ending in the world \<open>w'\<close>, the asset \<open>a\<close> was persisted as lines
  714 to 741 do it: the final file measured by \<^verbatim>\<open>stat\<close>, a name made of the time and a
  \<^verbatim>\<open>nanoid(6)\<close>, the file copied into the upload directory under that name, the slug then
  drawn by \<^verbatim>\<open>nanoid(10)\<close>, and the asset recorded by \<^verbatim>\<open>addGif\<close>, every call succeeding in
  the world left by the one before. The asset is the last event and the only one handed to
  \<^verbatim>\<open>addGif\<close> among these events.
\<close>

definition persisted :: "'w env \<Rightarrow> asset \<Rightarrow> event list \<Rightarrow> 'w \<Rightarrow> bool" where
  "persisted env a evs w' \<longleftrightarrow>
     (\<exists>before src savePath ws w3 now w4 suffix w5 w6 w7.
        evs = before @ [EvStat src, EvCopyFile src savePath, EvAddGif a] \<and>
        stored_slugs before = [] \<and>
        stat env src ws = (Inr (sizeBytes a), w3) \<and>
        Date_now env w3 = (now, w4) \<and>
        nanoid env (Some 6) w4 = (suffix, w5) \<and>
        (\<exists>finalExt. filename a = string_of_nat now @ ''-'' @ suffix @ finalExt) \<and>
        savePath = path_join env (UPLOAD_DIR env) (filename a) \<and>
        copyFile env src savePath w5 = (Inr (), w6) \<and>
        nanoid env (Some 10) w6 = (asset_slug a, w7) \<and>
        addGif env a w7 = (Inr (), w'))"

text \<open>Between \<open>s\<close> and \<open>s'\<close> one asset was persisted and \<^verbatim>\<open>result\<close> set to success with the slug of that asset.\<close>

definition persists :: "'w env \<Rightarrow> 'w pstate \<Rightarrow> 'w pstate \<Rightarrow> bool" where
  "persists env s s' \<longleftrightarrow>
     (\<exists>a evs. trace s' = trace s @ evs \<and> persisted env a evs (world s') \<and>
              result s' = (result s)\<lparr>success := True, slug := Some (asset_slug a)\<rparr>)"

subsection \<open>A concrete environment\<close>

text \<open>
  A small world on which the handler can be run: the world is a clock, \<^verbatim>\<open>https\<close> URLs
  parse, the allow-list has two entries, \<^verbatim>\<open>gallery-dl\<close> is installed and leaves one
  GIF behind, no converter is installed, every page names one image, and every file
  operation succeeds. The examples below vary single fields of it.
\<close>

definition demo_hostname :: "json \<Rightarrow> string option" where
  "demo_hostname v =
     (case v of
        JStr s \<Rightarrow> if take 8 s = ''https://''
                  then Some (takeWhile (\<lambda>c. c \<noteq> CHR ''/'') (drop 8 s)) else None
      | _ \<Rightarrow> None)"

definition demo_pathname :: "string \<Rightarrow> string outcome" where
  "demo_pathname s =
     (if take 8 s = ''https://'' then Inr (dropWhile (\<lambda>c. c \<noteq> CHR ''/'') (drop 8 s))
      else Inl ''Invalid URL'')"

definition demo_extname :: "string \<Rightarrow> string" where
  "demo_extname p =
     (if CHR ''.'' \<in> set p then CHR ''.'' # rev (takeWhile (\<lambda>c. c \<noteq> CHR ''.'') (rev p))
      else [])"

definition demo_basename :: "string \<Rightarrow> string" where
  "demo_basename p = rev (takeWhile (\<lambda>c. c \<noteq> CHR ''/'') (rev p))"

definition demo_number :: "string \<Rightarrow> jsnum" where
  "demo_number s =
     (if s \<noteq> [] \<and> list_all (\<lambda>c. c \<in> set ''0123456789'') s
      then Num (real (foldl (\<lambda>a c. 10 * a +
                  the (map_of (zip ''0123456789'' [0, 1, 2, 3, 4, 5, 6, 7, 8, 9 :: nat]) c)) 0 s))
      else NaN)"

definition demo_response :: "string option \<Rightarrow> fetch_response" where
  "demo_response len =
     \<lparr>ok = True, status = 200, statusText = ''OK'',
      headers = (\<lambda>h. if h = ''content-length'' then len
                      else if h = ''content-type'' then Some ''image/gif'' else None)\<rparr>"

definition demo_env :: "nat env" where
  "demo_env =
     \<lparr>validDomains = [''tenor.com'', ''giphy.com''],
      UPLOAD_DIR = ''/data/uploads'',
      tmpdir = ''/tmp'',
      url_hostname = demo_hostname,
      url_pathname = demo_pathname,
      path_join = (\<lambda>a b. a @ ''/'' @ b),
      path_extname = demo_extname,
      path_basename = demo_basename,
      toLowerCase = map ascii_lower,
      Number = demo_number,
      match_meta = (\<lambda>html prop. if prop = ''og:image'' then Some html else None),
      nanoid = (\<lambda>n w. (case n of None \<Rightarrow> ''V1StGXR8_Z5jdHi6B-myT''
                               | Some k \<Rightarrow> take k ''V1StGXR8_Z5jdHi6B-myT'', w)),
      Date_now = (\<lambda>w. (1700 + w, Suc w)),
      mkdir = (\<lambda>p w. (Inr (), w)),
      execFile = (\<lambda>tool args w. if tool = ''gallery-dl'' then (Inr (), w)
                                 else (Inl (''spawn '' @ tool @ '' ENOENT''), w)),
      fetch = (\<lambda>u agent w. (Inr (demo_response None), w)),
      resp_text = (\<lambda>r w. (Inr ''https://media.tenor.com/m/cat.gif'', w)),
      resp_arrayBuffer = (\<lambda>r w. (Inr ''GIF89a'', w)),
      writeFile = (\<lambda>p b w. (Inr (), w)),
      readdir_tree = (\<lambda>d w. Listing [FileEnt ''cat.gif'']),
      access = (\<lambda>p w. (Inr (), w)),
      stat = (\<lambda>p w. (Inr 2048, w)),
      copyFile = (\<lambda>a b w. (Inr (), w)),
      addGif = (\<lambda>a w. (Inr (), w)),
      rm = (\<lambda>p w. (Inr (), w))\<rparr>"



text \<open>A request body with one string that is no URL and one URL of an allowed host.\<close>

definition two_urls_body :: "string \<Rightarrow> json option" where
  "two_urls_body key =
     (if key = ''urls'' then Some (JArr [JStr ''nonsense'', JStr ''https://tenor.com/view/cat''])
      else None)"

text \<open>A removal that fails.\<close>

definition busy_rm :: "string \<Rightarrow> nat \<Rightarrow> unit outcome \<times> nat" where
  "busy_rm p w = (Inl ''EBUSY: resource busy or locked'', w)"

text \<open>A removal that leaves its mark on the world: after it the world is 99.\<close>

definition marking_rm :: "string \<Rightarrow> nat \<Rightarrow> unit outcome \<times> nat" where
  "marking_rm p w = (Inr (), 99)"


text \<open>The state in which a URL's processing starts.\<close>

definition demo_state :: "nat pstate" where
  "demo_state =
     \<lparr>world = 0, trace = [],
      result = \<lparr>url = JStr ''https://tenor.com/view/cat'', success = False, slug = None,
                error = None\<rparr>\<rparr>"

text \<open>The downloader succeeds and leaves the workspace empty.\<close>

definition empty_workspace_env :: "nat env" where
  "empty_workspace_env = demo_env\<lparr>readdir_tree := (\<lambda>d w. Listing [])\<rparr>"

text \<open>No executable can be started, the downloader included.\<close>

definition no_downloader_env :: "nat env" where
  "no_downloader_env =
     demo_env\<lparr>execFile := (\<lambda>tool args w. (Inl (''spawn '' @ tool @ '' ENOENT''), w))\<rparr>"

text \<open>Every file is one byte over the cap.\<close>

definition over_cap_env :: "nat env" where
  "over_cap_env = demo_env\<lparr>stat := (\<lambda>p w. (Inr 15728641, w))\<rparr>"

text \<open>Every file has exactly the size of the cap.\<close>

definition exact_cap_env :: "nat env" where
  "exact_cap_env = demo_env\<lparr>stat := (\<lambda>p w. (Inr 15728640, w))\<rparr>"

text \<open>No downloader, and every response declares a length of one byte over the cap.\<close>

definition declared_big_env :: "nat env" where
  "declared_big_env =
     no_downloader_env\<lparr>fetch := (\<lambda>u agent w. (Inr (demo_response (Some ''15728641'')), w))\<rparr>"

text \<open>A body of one byte over the cap.\<close>

definition big_buffer :: string where
  "big_buffer = replicate 15728641 (CHR ''x'')"

text \<open>No downloader, no declared length, and every body is one byte over the cap.\<close>

definition actual_big_env :: "nat env" where
  "actual_big_env = no_downloader_env\<lparr>resp_arrayBuffer := (\<lambda>r w. (Inr big_buffer, w))\<rparr>"

text \<open>A workspace with one video between two files that are neither images nor videos.\<close>

definition video_among_others_env :: "nat env" where
  "video_among_others_env =
     demo_env\<lparr>readdir_tree :=
       (\<lambda>d w. Listing [FileEnt ''notes.txt'', FileEnt ''clip.mp4'', FileEnt ''cover.jpg''])\<rparr>"

text \<open>The state of a URL's processing after a successful download.\<close>

definition acquired_state :: "nat pstate" where
  "acquired_state =
     \<lparr>world = 0,
      trace = [EvMkdir ''/tmp/gifselector-import-V1StGXR8_Z5jdHi6B-myT'',
               EvExecFile ''gallery-dl''
                 [JStr ''--directory'', JStr ''/tmp/gifselector-import-V1StGXR8_Z5jdHi6B-myT'',
                  JStr ''https://tenor.com/view/cat'']],
      result = \<lparr>url = JStr ''https://tenor.com/view/cat'', success = False, slug = None,
                error = None\<rparr>\<rparr>"

section \<open>Properties\<close>

lemmas run_defs =
  process_url_def import_url_def bind_io_def call_def sample_def try_finally_def
  try_catch_def return_io_def throw_io_def acquire_def fallback_def process_downloaded_def
  list_files_def process_file_def persist_def convert_def run_tool_def set_success_def
  extractMeta_def guess_ext_def js_or_def truthy_def isAllowed_def endsWith_def
  ffmpeg_webp_args_def magick_args_def replace_ext_def regex_char_match_def ascii_lower_def
  ALLOWED_EXTENSIONS_def EXTENSION_MIME_MAP_def MAX_DOWNLOAD_SIZE_def

lemmas demo_defs =
  demo_env_def demo_hostname_def demo_pathname_def demo_extname_def demo_basename_def
  demo_number_def demo_response_def

subsection \<open>Rules for traces, results and returned values\<close>

lemma emitsD:
  assumes "emits P m" and "m s = (r, s')"
  shows "\<exists>evs. trace s' = trace s @ evs \<and> list_all P evs"
  using assms unfolding emits_def by (metis snd_conv)

lemma keepsD: "keeps m \<Longrightarrow> m s = (r, s') \<Longrightarrow> result s' = result s"
  unfolding keeps_def by (metis snd_conv)

lemma returnsD: "returns V m \<Longrightarrow> m s = (Inr x, s') \<Longrightarrow> V x"
  unfolding returns_def by blast

lemma emits_weaken: "emits P m \<Longrightarrow> (\<And>ev. P ev \<Longrightarrow> Q ev) \<Longrightarrow> emits Q m"
  unfolding emits_def list_all_iff by blast

lemma emits_return: "emits P (return_io x)"
  by (simp add: emits_def return_io_def)

lemma emits_throw: "emits P (throw_io e)"
  by (simp add: emits_def throw_io_def)

lemma emits_call: "P ev \<Longrightarrow> emits P (call ev operation)"
  by (simp add: emits_def call_def split: prod.split)

lemma emits_sample: "emits P (sample operation)"
  by (simp add: emits_def sample_def split: prod.split)

lemma emits_list_files: "emits P (list_files env dir)"
  by (simp add: emits_def list_files_def)

lemma emits_set_success: "emits P (set_success sl)"
  by (simp add: emits_def set_success_def)

lemma emits_bind_returns:
  assumes "emits P m" and "returns V m" and "\<And>x. V x \<Longrightarrow> emits P (f x)"
  shows "emits P (bind_io m f)"
  unfolding emits_def
proof
  fix s
  obtain r s1 where m: "m s = (r, s1)" by (cases "m s")
  from emitsD[OF assms(1) m] obtain evs1 where
    1: "trace s1 = trace s @ evs1" "list_all P evs1" by blast
  show "\<exists>evs. trace (snd (bind_io m f s)) = trace s @ evs \<and> list_all P evs"
  proof (cases r)
    case (Inl e)
    then show ?thesis using m 1 by (simp add: bind_io_def)
  next
    case (Inr x)
    with m assms(2) have "V x" by (auto dest: returnsD)
    obtain r2 s2 where f: "f x s1 = (r2, s2)" by (cases "f x s1")
    from emitsD[OF assms(3)[OF \<open>V x\<close>] f] obtain evs2 where
      2: "trace s2 = trace s1 @ evs2" "list_all P evs2" by blast
    show ?thesis using m Inr f 1 2 by (simp add: bind_io_def)
  qed
qed

lemma returns_any: "returns (\<lambda>x. True) m"
  by (simp add: returns_def)

lemma emits_bind: "emits P m \<Longrightarrow> (\<And>x. emits P (f x)) \<Longrightarrow> emits P (bind_io m f)"
  by (rule emits_bind_returns [OF _ returns_any])

lemma emits_try_catch:
  assumes "emits P m" and "\<And>e. emits P (h e)"
  shows "emits P (try_catch m h)"
  unfolding emits_def
proof
  fix s
  obtain r s1 where m: "m s = (r, s1)" by (cases "m s")
  from emitsD[OF assms(1) m] obtain evs1 where
    1: "trace s1 = trace s @ evs1" "list_all P evs1" by blast
  show "\<exists>evs. trace (snd (try_catch m h s)) = trace s @ evs \<and> list_all P evs"
  proof (cases r)
    case (Inr x)
    then show ?thesis using m 1 by (simp add: try_catch_def)
  next
    case (Inl e)
    obtain r2 s2 where f: "h e s1 = (r2, s2)" by (cases "h e s1")
    from emitsD[OF assms(2) f] obtain evs2 where
      2: "trace s2 = trace s1 @ evs2" "list_all P evs2" by blast
    show ?thesis using m Inl f 1 2 by (simp add: try_catch_def)
  qed
qed

lemma emits_try_finally:
  assumes "emits P m" and "emits P fin"
  shows "emits P (try_finally m fin)"
  unfolding emits_def
proof
  fix s
  obtain r s1 where m: "m s = (r, s1)" by (cases "m s")
  from emitsD[OF assms(1) m] obtain evs1 where
    1: "trace s1 = trace s @ evs1" "list_all P evs1" by blast
  obtain r2 s2 where f: "fin s1 = (r2, s2)" by (cases "fin s1")
  from emitsD[OF assms(2) f] obtain evs2 where
    2: "trace s2 = trace s1 @ evs2" "list_all P evs2" by blast
  show "\<exists>evs. trace (snd (try_finally m fin s)) = trace s @ evs \<and> list_all P evs"
    using m f 1 2 by (cases r2) (simp_all add: try_finally_def)
qed

lemmas emits_rules =
  emits_return emits_throw emits_call emits_sample emits_list_files emits_set_success
  emits_bind emits_try_catch emits_try_finally

lemma keeps_return: "keeps (return_io x)"
  by (simp add: keeps_def return_io_def)

lemma keeps_throw: "keeps (throw_io e)"
  by (simp add: keeps_def throw_io_def)

lemma keeps_call: "keeps (call ev operation)"
  by (simp add: keeps_def call_def split: prod.split)

lemma keeps_sample: "keeps (sample operation)"
  by (simp add: keeps_def sample_def split: prod.split)

lemma keeps_list_files: "keeps (list_files env dir)"
  by (simp add: keeps_def list_files_def)

lemma keeps_bind:
  assumes "keeps m" and "\<And>x. keeps (f x)"
  shows "keeps (bind_io m f)"
  unfolding keeps_def
proof
  fix s
  obtain r s1 where m: "m s = (r, s1)" by (cases "m s")
  have 1: "result s1 = result s" by (rule keepsD[OF assms(1) m])
  show "result (snd (bind_io m f s)) = result s"
  proof (cases r)
    case (Inl e)
    then show ?thesis using m 1 by (simp add: bind_io_def)
  next
    case (Inr x)
    obtain r2 s2 where f: "f x s1 = (r2, s2)" by (cases "f x s1")
    have "result s2 = result s1" by (rule keepsD[OF assms(2) f])
    then show ?thesis using m Inr f 1 by (simp add: bind_io_def)
  qed
qed

lemma keeps_try_catch:
  assumes "keeps m" and "\<And>e. keeps (h e)"
  shows "keeps (try_catch m h)"
  unfolding keeps_def
proof
  fix s
  obtain r s1 where m: "m s = (r, s1)" by (cases "m s")
  have 1: "result s1 = result s" by (rule keepsD[OF assms(1) m])
  show "result (snd (try_catch m h s)) = result s"
  proof (cases r)
    case (Inr x)
    then show ?thesis using m 1 by (simp add: try_catch_def)
  next
    case (Inl e)
    obtain r2 s2 where f: "h e s1 = (r2, s2)" by (cases "h e s1")
    have "result s2 = result s1" by (rule keepsD[OF assms(2) f])
    then show ?thesis using m Inl f 1 by (simp add: try_catch_def)
  qed
qed

lemmas keeps_rules =
  keeps_return keeps_throw keeps_call keeps_sample keeps_list_files keeps_bind keeps_try_catch

lemma returns_return: "V x \<Longrightarrow> returns V (return_io x)"
  by (simp add: returns_def return_io_def)

lemma returns_throw: "returns V (throw_io e)"
  by (simp add: returns_def throw_io_def)

lemma returns_bind: "(\<And>x. returns V (f x)) \<Longrightarrow> returns V (bind_io m f)"
  unfolding returns_def bind_io_def by (auto split: prod.splits sum.splits)

lemma returns_try_catch:
  "returns V m \<Longrightarrow> (\<And>e. returns V (h e)) \<Longrightarrow> returns V (try_catch m h)"
  unfolding returns_def try_catch_def by (auto split: prod.splits sum.splits)

lemmas returns_rules = returns_return returns_throw returns_bind returns_try_catch

lemma emits_if:
  "(b \<Longrightarrow> emits P m) \<Longrightarrow> (\<not> b \<Longrightarrow> emits P n) \<Longrightarrow> emits P (if b then m else n)"
  by simp

lemma keeps_if: "(b \<Longrightarrow> keeps m) \<Longrightarrow> (\<not> b \<Longrightarrow> keeps n) \<Longrightarrow> keeps (if b then m else n)"
  by simp

lemma returns_if:
  "(b \<Longrightarrow> returns V m) \<Longrightarrow> (\<not> b \<Longrightarrow> returns V n) \<Longrightarrow> returns V (if b then m else n)"
  by simp

lemma emits_case_sum:
  "(\<And>e. emits P (f e)) \<Longrightarrow> (\<And>x. emits P (g x)) \<Longrightarrow> emits P (case v of Inl e \<Rightarrow> f e | Inr x \<Rightarrow> g x)"
  by (cases v) simp_all

lemma keeps_case_sum:
  "(\<And>e. keeps (f e)) \<Longrightarrow> (\<And>x. keeps (g x)) \<Longrightarrow> keeps (case v of Inl e \<Rightarrow> f e | Inr x \<Rightarrow> g x)"
  by (cases v) simp_all

lemma total_return: "total (return_io x)"
  by (simp add: total_def return_io_def)

lemma total_bind: "total m \<Longrightarrow> (\<And>x. total (f x)) \<Longrightarrow> total (bind_io m f)"
  unfolding total_def bind_io_def
  by (auto split: prod.splits sum.splits) (metis Inl_Inr_False fst_conv)

lemma total_try_catch: "(\<And>e. total (h e)) \<Longrightarrow> total (try_catch m h)"
  unfolding total_def try_catch_def by (auto split: prod.splits sum.splits)

lemma total_if: "(b \<Longrightarrow> total m) \<Longrightarrow> (\<not> b \<Longrightarrow> total n) \<Longrightarrow> total (if b then m else n)"
  by simp

lemma emits_run_tool: "emits is_tool (run_tool env t a out)"
  unfolding run_tool_def by (intro emits_rules) (simp_all add: is_tool_def)

lemma keeps_run_tool: "keeps (run_tool env t a out)"
  unfolding run_tool_def by (intro keeps_rules)

lemma emits_convert: "emits is_tool (convert env f ext mp4)"
  unfolding convert_def Let_def by (intro emits_rules emits_if emits_run_tool)

lemma keeps_convert: "keeps (convert env f ext mp4)"
  unfolding convert_def Let_def by (intro keeps_rules keeps_if keeps_run_tool)

lemma total_convert: "total (convert env f ext mp4)"
  unfolding convert_def Let_def by (intro total_return total_bind total_try_catch total_if)

lemma returns_convert:
  assumes "ext \<in> set ALLOWED_EXTENSIONS \<or> ext = ''.mp4''"
  shows "returns image_kind (convert env f ext (ext = ''.mp4''))"
proof -
  have "image_kind (f, ext, if ext = ''.mp4'' then Some ''video/mp4'' else EXTENSION_MIME_MAP ext)"
    using assms by (auto simp: image_kind_def ALLOWED_EXTENSIONS_def EXTENSION_MIME_MAP_def)
  moreover have "image_kind (p, ''.webp'', Some ''image/webp'')" "image_kind (p, ''.gif'', Some ''image/gif'')" for p
    by (simp_all add: image_kind_def)
  ultimately show ?thesis
    unfolding convert_def Let_def by (intro returns_rules returns_if)
qed

lemma emits_fallback: "emits is_net (fallback env u d)"
  unfolding fallback_def Let_def by (intro emits_rules emits_if emits_case_sum) (simp_all add: is_net_def)

lemma keeps_fallback: "keeps (fallback env u d)"
  unfolding fallback_def Let_def by (intro keeps_rules keeps_if keeps_case_sum)

lemma stored_slugs_append [simp]: "stored_slugs (xs @ ys) = stored_slugs xs @ stored_slugs ys"
  by (simp add: stored_slugs_def)

lemma stored_later:
  "stored env s0 s1 \<Longrightarrow> result s = result s0 \<Longrightarrow> result s' = result s1 \<Longrightarrow>
   trace s' = trace s1 @ evs \<Longrightarrow> stored env s s'"
  unfolding stored_def by auto

lemma persist_outcome:
  assumes "persist env f x s = (r, s')"
  shows "(r = Inr True \<and> stored env s s') \<or> (r \<noteq> Inr True \<and> result s' = result s)"
proof -
  obtain p e m where x: "x = (p, e, m)" by (cases x)
  show ?thesis
    using assms unfolding x persist_def Let_def stored_def
    apply (auto simp: bind_io_def call_def sample_def return_io_def set_success_def stored_slugs_def
        split: if_splits prod.splits sum.splits)
    apply (metis fst_conv)
    done
qed

lemma process_file_outcome:
  assumes "process_file env f s = (r, s')"
  shows "(r = Inr True \<and> stored env s s') \<or> (r \<noteq> Inr True \<and> result s' = result s)"
proof (cases "toLowerCase env (path_extname env f) \<notin> set ALLOWED_EXTENSIONS
              \<and> toLowerCase env (path_extname env f) \<noteq> ''.mp4''")
  case True
  with assms show ?thesis by (auto simp: process_file_def return_io_def)
next
  case False
  define ext where "ext = toLowerCase env (path_extname env f)"
  obtain r1 s1 where c: "convert env f ext (ext = ''.mp4'') s = (r1, s1)"
    by (cases "convert env f ext (ext = ''.mp4'') s")
  have k: "result s1 = result s" by (rule keepsD [OF keeps_convert c])
  from emitsD [OF emits_convert c] obtain evs where t: "trace s1 = trace s @ evs" by blast
  show ?thesis
  proof (cases r1)
    case (Inl e)
    with total_convert [of env f ext "ext = ''.mp4''"] c show ?thesis
      by (auto simp: total_def dest: spec [of _ s])
  next
    case (Inr x)
    with assms False c have p: "persist env f x s1 = (r, s')"
      by (simp add: process_file_def Let_def ext_def bind_io_def)
    from persist_outcome [OF p] k show ?thesis
      by (auto intro: stored_later [where evs = "[]"])
  qed
qed

lemma process_files_found: "process_files env files True s = (Inr True, s)"
  by (cases files) (simp_all add: return_io_def)

lemma process_files_outcome:
  "process_files env files False s = (r, s') \<Longrightarrow>
   (r = Inr True \<and> stored env s s') \<or> (r \<noteq> Inr True \<and> result s' = result s)"
proof (induction files arbitrary: s)
  case Nil
  then show ?case by (auto simp: return_io_def)
next
  case (Cons f files)
  obtain r1 s1 where f: "process_file env f s = (r1, s1)" by (cases "process_file env f s")
  show ?case
  proof (cases r1)
    case (Inl e)
    with Cons.prems f process_file_outcome [OF f] show ?thesis
      by (auto simp: bind_io_def)
  next
    case (Inr found)
    show ?thesis
    proof (cases found)
      case True
      with Cons.prems f Inr process_file_outcome [OF f] show ?thesis
        by (auto simp: bind_io_def process_files_found)
    next
      case False
      with Cons.prems f Inr have "process_files env files False s1 = (r, s')"
        by (simp add: bind_io_def)
      from Cons.IH [OF this] process_file_outcome [OF f] Inr False show ?thesis
        by (auto intro: stored_later [where evs = "[]"])
    qed
  qed
qed

lemma process_downloaded_outcome:
  assumes "process_downloaded env d s = (r, s')"
  shows "(r = Inr () \<and> stored env s s') \<or> ((\<exists>e. r = Inl e) \<and> result s' = result s)"
proof (cases "findFiles (path_join env) d (readdir_tree env d (world s))")
  case (Inl e)
  with assms show ?thesis
    by (auto simp: process_downloaded_def list_files_def bind_io_def)
next
  case (Inr files)
  show ?thesis
  proof (cases "files = []")
    case True
    with assms Inr show ?thesis
      by (auto simp: process_downloaded_def list_files_def bind_io_def throw_io_def)
  next
    case False
    obtain r1 s1 where l: "process_files env files False s = (r1, s1)"
      by (cases "process_files env files False s")
    from process_files_outcome [OF l] assms Inr False l show ?thesis
      by (cases r1) (auto simp: process_downloaded_def list_files_def bind_io_def throw_io_def
          return_io_def split: if_splits)
  qed
qed

lemma emits_persist:
  assumes "image_kind x"
  shows "emits loop_event (persist env f x)"
proof -
  obtain p e m where x: "x = (p, e, m)" by (cases x)
  show ?thesis
    using assms unfolding x persist_def Let_def prod.case
    apply (intro emits_rules emits_if)
    apply (auto simp: loop_event_def is_store_def storable_def image_kind_def endsWith_def)
    done
qed

lemma is_tool_loop_event: "is_tool ev \<Longrightarrow> loop_event ev"
  by (cases ev) (simp_all add: is_tool_def loop_event_def storable_def)

lemma emits_process_file: "emits loop_event (process_file env f)"
  unfolding process_file_def Let_def
  apply (intro emits_if emits_return)
  apply (rule emits_bind_returns [OF emits_weaken [OF emits_convert is_tool_loop_event] returns_convert])
    apply (auto intro: emits_persist)
  done

lemma emits_process_files: "emits loop_event (process_files env files found)"
  by (induction files arbitrary: found) (auto intro!: emits_rules emits_process_file)

lemma emits_process_downloaded: "emits loop_event (process_downloaded env d)"
  unfolding process_downloaded_def
  by (intro emits_rules emits_if emits_process_files)

lemma keeps_acquire: "keeps (acquire env u d)"
  unfolding acquire_def by (intro keeps_rules keeps_fallback)

lemma emits_acquire: "emits is_acquire (acquire env u d)"
  unfolding acquire_def
  by (intro emits_rules emits_weaken [OF emits_fallback]) (auto simp: is_acquire_def)

lemma cleanup_run:
  "try_catch (call (EvRm d) (rm env d)) (\<lambda>e. return_io ()) s =
     (Inr (), s\<lparr>world := snd (rm env d (world s)), trace := trace s @ [EvRm d]\<rparr>)"
  by (simp add: try_catch_def call_def return_io_def split: prod.split sum.split)

lemma try_finally_cleanup:
  "m s = (r, s1) \<Longrightarrow>
   try_finally m (try_catch (call (EvRm d) (rm env d)) (\<lambda>e. return_io ())) s =
     (r, s1\<lparr>world := snd (rm env d (world s1)), trace := trace s1 @ [EvRm d]\<rparr>)"
  by (simp add: try_finally_def cleanup_run)

lemma import_url_workspace:
  assumes "url_hostname env u = Some h" and "isAllowed (validDomains env) h"
    and "nanoid env None (world s) = (ident, w1)"
    and "d = path_join env (tmpdir env) (''gifselector-import-'' @ ident)"
    and "mkdir env d w1 = (Inr (), w2)"
    and "bind_io (acquire env u d) (\<lambda>v. process_downloaded env d)
           (s\<lparr>world := w2, trace := trace s @ [EvMkdir d]\<rparr>) = (r, s1)"
  shows "import_url env u s =
           (r, s1\<lparr>world := snd (rm env d (world s1)), trace := trace s1 @ [EvRm d]\<rparr>)"
  using assms
  by (simp add: import_url_def bind_io_def [of "sample _"] bind_io_def [of "call _ _"]
      sample_def call_def Let_def try_finally_cleanup)

lemma staged_outcome:
  assumes "bind_io (acquire env u d) (\<lambda>v. process_downloaded env d) s = (r, s')"
  shows "(r = Inr () \<and> stored env s s') \<or> ((\<exists>e. r = Inl e) \<and> result s' = result s)"
proof -
  obtain r1 s1 where a: "acquire env u d s = (r1, s1)" by (cases "acquire env u d s")
  have k: "result s1 = result s" by (rule keepsD [OF keeps_acquire a])
  show ?thesis
  proof (cases r1)
    case (Inl e)
    with assms a k show ?thesis by (auto simp: bind_io_def)
  next
    case (Inr v)
    with assms a have "process_downloaded env d s1 = (r, s')" by (simp add: bind_io_def)
    from process_downloaded_outcome [OF this] k show ?thesis
      by (auto intro: stored_later [where evs = "[]"])
  qed
qed

lemma import_url_outcome:
  assumes "import_url env u s = (r, s')"
  shows "(r = Inr () \<and> stored env s s') \<or> ((\<exists>e. r = Inl e) \<and> result s' = result s)"
proof (cases "url_hostname env u")
  case None
  with assms show ?thesis by (auto simp: import_url_def throw_io_def)
next
  case (Some h)
  show ?thesis
  proof (cases "isAllowed (validDomains env) h")
    case False
    with assms Some show ?thesis by (auto simp: import_url_def throw_io_def)
  next
    case True
    obtain ident w1 where n: "nanoid env None (world s) = (ident, w1)"
      by (cases "nanoid env None (world s)")
    define d where "d = path_join env (tmpdir env) (''gifselector-import-'' @ ident)"
    obtain mr w2 where m: "mkdir env d w1 = (mr, w2)" by (cases "mkdir env d w1")
    show ?thesis
    proof (cases mr)
      case (Inl e)
      with assms Some True n m show ?thesis
        by (auto simp: import_url_def bind_io_def sample_def call_def Let_def d_def)
    next
      case (Inr v)
      define s0 where "s0 = s\<lparr>world := w2, trace := trace s @ [EvMkdir d]\<rparr>"
      obtain r1 s1 where b: "bind_io (acquire env u d) (\<lambda>v. process_downloaded env d) s0 = (r1, s1)"
        by (cases "bind_io (acquire env u d) (\<lambda>v. process_downloaded env d) s0")
      from import_url_workspace [OF Some True n d_def] m Inr b assms
      have e: "r = r1" "s' = s1\<lparr>world := snd (rm env d (world s1)), trace := trace s1 @ [EvRm d]\<rparr>"
        by (simp_all add: s0_def)
      from staged_outcome [OF b] show ?thesis
        unfolding e by (auto simp: s0_def intro: stored_later)
    qed
  qed
qed

lemma emits_case_option:
  "emits P m \<Longrightarrow> (\<And>x. emits P (f x)) \<Longrightarrow> emits P (case v of None \<Rightarrow> m | Some x \<Rightarrow> f x)"
  by (cases v) simp_all

lemma is_acquire_storable: "is_acquire ev \<Longrightarrow> storable ev"
  by (cases ev) (auto simp: is_acquire_def is_net_def storable_def)

lemma loop_event_storable: "loop_event ev \<Longrightarrow> storable ev"
  by (simp add: loop_event_def)

lemma emits_import_url: "emits storable (import_url env u)"
  unfolding import_url_def Let_def
  by (intro emits_rules emits_if emits_case_option
      emits_weaken [OF emits_acquire is_acquire_storable]
      emits_weaken [OF emits_process_downloaded loop_event_storable])
    (simp_all add: storable_def)

lemma well_formed_later: "well_formed env tr r \<Longrightarrow> well_formed env (tr @ evs) r"
  unfolding well_formed_def by auto

lemma process_url_spec:
  assumes "process_url env u st = (r, w', tr')"
  shows "url r = u \<and> well_formed env tr' r \<and> (\<exists>evs. tr' = snd st @ evs \<and> list_all storable evs)"
proof -
  define s0 where "s0 = \<lparr>world = fst st, trace = snd st,
      result = \<lparr>url = u, success = False, slug = None, error = None\<rparr>\<rparr>"
  obtain r1 s1 where i: "import_url env u s0 = (r1, s1)" by (cases "import_url env u s0")
  from emitsD [OF emits_import_url i] obtain evs where
    t: "trace s1 = snd st @ evs" "list_all storable evs" by (auto simp: s0_def)
  from assms i have r: "r = (case r1 of Inl m \<Rightarrow> (result s1)\<lparr>error := Some m\<rparr> | Inr v \<Rightarrow> result s1)"
    and tr': "tr' = trace s1"
    by (auto simp: process_url_def s0_def split: sum.splits)
  from import_url_outcome [OF i] have "url r = u \<and> well_formed env tr' r"
    unfolding r tr' by (auto simp: s0_def stored_def well_formed_def)
  with t tr' show ?thesis by auto
qed

lemma process_urls_spec:
  "process_urls env us st = (rs, w', tr') \<Longrightarrow>
   map url rs = us \<and> (\<forall>r\<in>set rs. well_formed env tr' r) \<and>
   (\<exists>evs. tr' = snd st @ evs \<and> list_all storable evs)"
proof (induction us arbitrary: st rs w' tr')
  case Nil
  then show ?case by auto
next
  case (Cons u us)
  obtain r w1 tr1 where p: "process_url env u st = (r, w1, tr1)"
    by (cases "process_url env u st") auto
  obtain rs1 w2 tr2 where q: "process_urls env us (w1, tr1) = (rs1, w2, tr2)"
    by (cases "process_urls env us (w1, tr1)") auto
  from Cons.prems p q have e: "rs = r # rs1" "w' = w2" "tr' = tr2" by auto
  from process_url_spec [OF p] obtain evs1 where
    1: "url r = u" "well_formed env tr1 r" "tr1 = snd st @ evs1" "list_all storable evs1" by auto
  from Cons.IH [OF q] obtain evs2 where
    2: "map url rs1 = us" "\<forall>r\<in>set rs1. well_formed env tr2 r" "tr2 = tr1 @ evs2"
       "list_all storable evs2" by auto
  from 1(2) have "well_formed env (tr1 @ evs2) r" by (rule well_formed_later)
  with 2 have "well_formed env tr2 r" by simp
  with 1 2 show ?case unfolding e by auto
qed

lemma process_urls_nth:
  "process_urls env us st = (rs, st') \<Longrightarrow>
   length rs = length us \<and>
   (\<forall>i<length us. \<exists>st_i. rs ! i = fst (process_url env (us ! i) st_i))"
proof (induction us arbitrary: st rs st')
  case Nil
  then show ?case by auto
next
  case (Cons u us)
  obtain r st1 where p: "process_url env u st = (r, st1)" by (cases "process_url env u st")
  obtain rs1 st2 where q: "process_urls env us st1 = (rs1, st2)"
    by (cases "process_urls env us st1")
  from Cons.prems p q have e: "rs = r # rs1" by auto
  from Cons.IH [OF q] have ih: "length rs1 = length us"
    "\<forall>i<length us. \<exists>st_i. rs1 ! i = fst (process_url env (us ! i) st_i)" by auto
  have "\<exists>st_i. (r # rs1) ! i = fst (process_url env ((u # us) ! i) st_i)"
    if "i < length (u # us)" for i
  proof (cases i)
    case 0
    with p have "(r # rs1) ! i = fst (process_url env ((u # us) ! i) st)" by simp
    then show ?thesis ..
  next
    case (Suc j)
    with that ih show ?thesis by auto
  qed
  with ih show ?case unfolding e by auto
qed


subsection \<open>A run of the handler\<close>

text \<open>The run of the handler on the two-element body, computed.\<close>

lemma two_urls_run:
  "import_handler demo_env two_urls_body 0 =
     (\<lparr>code = 200,
       body = ResultsBody
         [\<lparr>url = JStr ''nonsense'', success = False, slug = None, error = Some ''Invalid URL''\<rparr>,
          \<lparr>url = JStr ''https://tenor.com/view/cat'', success = True,
            slug = Some ''V1StGXR8_Z'', error = None\<rparr>]\<rparr>,
      1,
      [EvMkdir ''/tmp/gifselector-import-V1StGXR8_Z5jdHi6B-myT'',
       EvExecFile ''gallery-dl''
         [JStr ''--directory'', JStr ''/tmp/gifselector-import-V1StGXR8_Z5jdHi6B-myT'',
          JStr ''https://tenor.com/view/cat''],
       EvExecFile ''magick''
         [JStr ''/tmp/gifselector-import-V1StGXR8_Z5jdHi6B-myT/cat.gif'', JStr ''-coalesce'',
          JStr ''-quality'', JStr ''80'',
          JStr ''/tmp/gifselector-import-V1StGXR8_Z5jdHi6B-myT/cat.webp''],
       EvExecFile ''convert''
         [JStr ''/tmp/gifselector-import-V1StGXR8_Z5jdHi6B-myT/cat.gif'', JStr ''-coalesce'',
          JStr ''-quality'', JStr ''80'',
          JStr ''/tmp/gifselector-import-V1StGXR8_Z5jdHi6B-myT/cat.webp''],
       EvStat ''/tmp/gifselector-import-V1StGXR8_Z5jdHi6B-myT/cat.gif'',
       EvCopyFile ''/tmp/gifselector-import-V1StGXR8_Z5jdHi6B-myT/cat.gif''
         ''/data/uploads/1700-V1StGX.gif'',
       EvAddGif \<lparr>asset_slug = ''V1StGXR8_Z'', filename = ''1700-V1StGX.gif'',
                 originalName = ''cat.gif'', mimeType = Some ''image/gif'', sizeBytes = 2048\<rparr>,
       EvRm ''/tmp/gifselector-import-V1StGXR8_Z5jdHi6B-myT''])"
  by (simp add: import_handler_def two_urls_body_def run_defs demo_defs Let_def
      string_of_nat.simps digit_char_def)

subsection \<open>Validation\<close>

lemma endsWith_iff: "endsWith s suffix \<longleftrightarrow> (\<exists>p. s = p @ suffix)"
proof
  assume "endsWith s suffix"
  then have "s = take (length s - length suffix) s @ suffix"
    by (metis append_take_drop_id endsWith_def)
  then show "\<exists>p. s = p @ suffix" ..
next
  assume "\<exists>p. s = p @ suffix"
  then show "endsWith s suffix" by (auto simp: endsWith_def)
qed

lemma isAllowed_iff:
  "isAllowed domains hostname \<longleftrightarrow>
     (\<exists>domain\<in>set domains. hostname = domain \<or> (\<exists>p. hostname = p @ ''.'' @ domain))"
  by (simp add: isAllowed_def list_ex_iff endsWith_iff)

text \<open>
  C2. A value that does not parse as a URL gives \<^verbatim>\<open>success: false\<close> with the error
  "Invalid URL". A URL whose hostname neither is an entry of the allow-list nor ends with
  a dot followed by an entry gives \<^verbatim>\<open>success: false\<close> with the error "Domain not
  whitelisted". In both cases the world and the trace are untouched: no directory is made,
  no process is started, nothing is fetched.
\<close>

theorem validation_rejects:
  "(url_hostname env urlStr = None \<longrightarrow>
      process_url env urlStr (w, tr) =
        (\<lparr>url = urlStr, success = False, slug = None, error = Some ''Invalid URL''\<rparr>, w, tr))
   \<and> (\<forall>hostname.
        url_hostname env urlStr = Some hostname \<and>
        (\<forall>domain\<in>set (validDomains env).
           hostname \<noteq> domain \<and> (\<forall>p. hostname \<noteq> p @ ''.'' @ domain)) \<longrightarrow>
        process_url env urlStr (w, tr) =
          (\<lparr>url = urlStr, success = False, slug = None,
            error = Some ''Domain not whitelisted''\<rparr>, w, tr))"
proof (intro conjI impI allI)
  assume "url_hostname env urlStr = None"
  then show "process_url env urlStr (w, tr) =
        (\<lparr>url = urlStr, success = False, slug = None, error = Some ''Invalid URL''\<rparr>, w, tr)"
    by (simp add: process_url_def import_url_def throw_io_def)
next
  fix hostname
  assume h: "url_hostname env urlStr = Some hostname \<and>
        (\<forall>domain\<in>set (validDomains env).
           hostname \<noteq> domain \<and> (\<forall>p. hostname \<noteq> p @ ''.'' @ domain))"
  then have "\<not> isAllowed (validDomains env) hostname"
    unfolding isAllowed_iff by blast
  with h show "process_url env urlStr (w, tr) =
          (\<lparr>url = urlStr, success = False, slug = None,
            error = Some ''Domain not whitelisted''\<rparr>, w, tr)"
    by (simp add: process_url_def import_url_def throw_io_def)
qed

theorem validation_rejects_witness:
  "url_hostname demo_env (JStr ''nonsense'') = None
   \<and> process_url demo_env (JStr ''nonsense'') (0, []) =
       (\<lparr>url = JStr ''nonsense'', success = False, slug = None,
         error = Some ''Invalid URL''\<rparr>, 0, [])
   \<and> url_hostname demo_env (JStr ''https://evil.example/cat.gif'') = Some ''evil.example''
   \<and> \<not> isAllowed (validDomains demo_env) ''evil.example''
   \<and> process_url demo_env (JStr ''https://evil.example/cat.gif'') (0, []) =
       (\<lparr>url = JStr ''https://evil.example/cat.gif'', success = False, slug = None,
         error = Some ''Domain not whitelisted''\<rparr>, 0, [])"
proof -
  have 1: "url_hostname demo_env (JStr ''nonsense'') = None"
    by (simp add: demo_defs)
  have 2: "url_hostname demo_env (JStr ''https://evil.example/cat.gif'') = Some ''evil.example''"
    by (simp add: demo_defs)
  have 3: "\<not> isAllowed (validDomains demo_env) ''evil.example''"
    by (simp add: demo_defs isAllowed_def endsWith_def)
  then have 4: "\<forall>domain\<in>set (validDomains demo_env).
      ''evil.example'' \<noteq> domain \<and> (\<forall>p. ''evil.example'' \<noteq> p @ ''.'' @ domain)"
    unfolding isAllowed_iff by blast
  show ?thesis
    using 1 2 3 4
      validation_rejects [of demo_env "JStr ''nonsense''" 0 "[]"]
      validation_rejects [of demo_env "JStr ''https://evil.example/cat.gif''" 0 "[]"]
    by blast
qed

subsection \<open>The request\<close>



subsection \<open>The batch\<close>

lemma process_url_failure:
  assumes "import_url env u
             \<lparr>world = fst st, trace = snd st,
              result = \<lparr>url = u, success = False, slug = None, error = None\<rparr>\<rparr> = (Inl message, s1)"
  shows "fst (process_url env u st) =
           \<lparr>url = u, success = False, slug = None, error = Some message\<rparr>"
proof -
  from import_url_outcome [OF assms]
  have "result s1 = \<lparr>url = u, success = False, slug = None, error = None\<rparr>" by simp
  with assms show ?thesis by (simp add: process_url_def)
qed

text \<open>
  C1. Where \<^verbatim>\<open>urls\<close> is an array, the handler answers with status 200 and a list of
  results of the same length; the \<open>i\<close>-th entry carries the \<open>i\<close>-th element as its
  \<^verbatim>\<open>url\<close>, it is what processing that element produced, and where it is not a success
  it holds an error message. Whenever the processing of an element throws, the entry made
  for it is the failure with the message thrown. All this holds for every environment,
  hence whatever fails while any of the elements is processed.
\<close>

theorem batch_results:
  assumes "req_body ''urls'' = Some (JArr urls)"
  shows "(\<exists>results w' tr.
           import_handler env req_body w = (\<lparr>code = 200, body = ResultsBody results\<rparr>, w', tr) \<and>
           length results = length urls \<and>
           (\<forall>i<length urls. url (results ! i) = urls ! i \<and>
              (\<exists>st. results ! i = fst (process_url env (urls ! i) st)) \<and>
              (\<not> success (results ! i) \<longrightarrow> (\<exists>message. error (results ! i) = Some message))))
       \<and> (\<forall>u st message s1.
            import_url env u
              \<lparr>world = fst st, trace = snd st,
               result = \<lparr>url = u, success = False, slug = None, error = None\<rparr>\<rparr> =
              (Inl message, s1) \<longrightarrow>
            fst (process_url env u st) =
              \<lparr>url = u, success = False, slug = None, error = Some message\<rparr>)"
proof
  obtain rs w' tr where p: "process_urls env urls (w, []) = (rs, w', tr)"
    by (cases "process_urls env urls (w, [])") auto
  from process_urls_spec [OF p] have 1: "map url rs = urls" "\<forall>r\<in>set rs. well_formed env tr r"
    by auto
  from process_urls_nth [OF p] have 2: "length rs = length urls"
    "\<forall>i<length urls. \<exists>st. rs ! i = fst (process_url env (urls ! i) st)" by auto
  have "url (rs ! i) = urls ! i \<and> (\<not> success (rs ! i) \<longrightarrow> (\<exists>message. error (rs ! i) = Some message))"
    if "i < length urls" for i
  proof -
    from that 2 have "rs ! i \<in> set rs" by simp
    with 1 have "well_formed env tr (rs ! i)" by blast
    moreover from 1 that 2 have "url (rs ! i) = urls ! i" by (metis nth_map)
    ultimately show ?thesis by (auto simp: well_formed_def)
  qed
  with 2 assms p show "\<exists>results w' tr.
           import_handler env req_body w = (\<lparr>code = 200, body = ResultsBody results\<rparr>, w', tr) \<and>
           length results = length urls \<and>
           (\<forall>i<length urls. url (results ! i) = urls ! i \<and>
              (\<exists>st. results ! i = fst (process_url env (urls ! i) st)) \<and>
              (\<not> success (results ! i) \<longrightarrow> (\<exists>message. error (results ! i) = Some message)))"
    by (auto simp: import_handler_def)
  show "\<forall>u st message s1.
            import_url env u
              \<lparr>world = fst st, trace = snd st,
               result = \<lparr>url = u, success = False, slug = None, error = None\<rparr>\<rparr> =
              (Inl message, s1) \<longrightarrow>
            fst (process_url env u st) =
              \<lparr>url = u, success = False, slug = None, error = Some message\<rparr>"
    by (intro allI impI) (rule process_url_failure)
qed

theorem batch_results_witness:
  "two_urls_body ''urls'' = Some (JArr [JStr ''nonsense'', JStr ''https://tenor.com/view/cat''])
   \<and> (\<exists>results w' tr.
         import_handler demo_env two_urls_body 0 =
           (\<lparr>code = 200, body = ResultsBody results\<rparr>, w', tr) \<and>
         length results = 2 \<and>
         url (results ! 0) = JStr ''nonsense'' \<and>
         url (results ! 1) = JStr ''https://tenor.com/view/cat'')
   \<and> import_url demo_env (JStr ''nonsense'')
        \<lparr>world = 0, trace = [],
         result = \<lparr>url = JStr ''nonsense'', success = False, slug = None, error = None\<rparr>\<rparr> =
        (Inl ''Invalid URL'',
         \<lparr>world = 0, trace = [],
          result = \<lparr>url = JStr ''nonsense'', success = False, slug = None, error = None\<rparr>\<rparr>)
   \<and> fst (process_url demo_env (JStr ''nonsense'') (0, [])) =
        \<lparr>url = JStr ''nonsense'', success = False, slug = None, error = Some ''Invalid URL''\<rparr>"
proof -
  have b: "two_urls_body ''urls'' = Some (JArr [JStr ''nonsense'', JStr ''https://tenor.com/view/cat''])"
    by (simp add: two_urls_body_def)
  note t = batch_results [of two_urls_body "[JStr ''nonsense'', JStr ''https://tenor.com/view/cat'']"
      demo_env 0, OF b]
  from t [THEN conjunct1]
  obtain results w' tr where
    r: "import_handler demo_env two_urls_body 0 =
          (\<lparr>code = 200, body = ResultsBody results\<rparr>, w', tr)"
      "length results = length [JStr ''nonsense'', JStr ''https://tenor.com/view/cat'']"
      "\<forall>i<length [JStr ''nonsense'', JStr ''https://tenor.com/view/cat''].
         url (results ! i) = [JStr ''nonsense'', JStr ''https://tenor.com/view/cat''] ! i \<and>
         (\<exists>st. results ! i = fst (process_url demo_env
            ([JStr ''nonsense'', JStr ''https://tenor.com/view/cat''] ! i) st)) \<and>
         (\<not> success (results ! i) \<longrightarrow> (\<exists>message. error (results ! i) = Some message))"
    by blast
  from r(3) have "url (results ! 0) = JStr ''nonsense''"
    "url (results ! 1) = JStr ''https://tenor.com/view/cat''"
    by (simp_all add: nth_Cons')
  with r(1,2) have 1: "\<exists>results w' tr.
         import_handler demo_env two_urls_body 0 =
           (\<lparr>code = 200, body = ResultsBody results\<rparr>, w', tr) \<and>
         length results = 2 \<and>
         url (results ! 0) = JStr ''nonsense'' \<and>
         url (results ! 1) = JStr ''https://tenor.com/view/cat''"
    by auto
  have 2: "import_url demo_env (JStr ''nonsense'')
        \<lparr>world = fst (0 :: nat, [] :: event list), trace = snd (0 :: nat, [] :: event list),
         result = \<lparr>url = JStr ''nonsense'', success = False, slug = None, error = None\<rparr>\<rparr> =
        (Inl ''Invalid URL'',
         \<lparr>world = 0, trace = [],
          result = \<lparr>url = JStr ''nonsense'', success = False, slug = None, error = None\<rparr>\<rparr>)"
    by (simp add: import_url_def throw_io_def demo_defs)
  from t [THEN conjunct2, rule_format, OF 2]
  have 3: "fst (process_url demo_env (JStr ''nonsense'') (0, [])) =
        \<lparr>url = JStr ''nonsense'', success = False, slug = None, error = Some ''Invalid URL''\<rparr>" .
  from 2 have 4: "import_url demo_env (JStr ''nonsense'')
        \<lparr>world = 0, trace = [],
         result = \<lparr>url = JStr ''nonsense'', success = False, slug = None, error = None\<rparr>\<rparr> =
        (Inl ''Invalid URL'',
         \<lparr>world = 0, trace = [],
          result = \<lparr>url = JStr ''nonsense'', success = False, slug = None, error = None\<rparr>\<rparr>)"
    by simp
  from b 1 4 3 show ?thesis by (intro conjI)
qed

subsection \<open>Cleanup\<close>

lemma fallback_rm: "fallback (env\<lparr>rm := x\<rparr>) u d = fallback env u d"
  by (simp add: fallback_def extractMeta_def guess_ext_def Let_def cong: if_cong sum.case_cong)

lemma acquire_rm: "acquire (env\<lparr>rm := x\<rparr>) u d = acquire env u d"
  by (simp add: acquire_def fallback_rm)

lemma run_tool_rm: "run_tool (env\<lparr>rm := x\<rparr>) t a out = run_tool env t a out"
  by (simp add: run_tool_def)

lemma convert_rm: "convert (env\<lparr>rm := x\<rparr>) f ext mp4 = convert env f ext mp4"
  by (simp add: convert_def run_tool_rm Let_def cong: if_cong)

lemma persist_rm: "persist (env\<lparr>rm := x\<rparr>) f = persist env f"
  by (simp add: persist_def Let_def cong: if_cong prod.case_cong)

lemma process_file_rm: "process_file (env\<lparr>rm := x\<rparr>) f = process_file env f"
  by (simp add: process_file_def convert_rm persist_rm Let_def cong: if_cong)

lemma process_files_rm: "process_files (env\<lparr>rm := x\<rparr>) files = process_files env files"
proof (induction files)
  case Nil
  show ?case by (rule ext) simp
next
  case (Cons f files)
  show ?case by (rule ext) (simp add: Cons.IH process_file_rm)
qed

lemma list_files_rm: "list_files (env\<lparr>rm := x\<rparr>) d = list_files env d"
  by (rule ext) (simp add: list_files_def)

lemma process_downloaded_rm: "process_downloaded (env\<lparr>rm := x\<rparr>) d = process_downloaded env d"
  by (simp add: process_downloaded_def list_files_rm process_files_rm cong: if_cong)

lemma emits_staged:
  "emits (\<lambda>ev. is_acquire ev \<or> loop_event ev)
     (bind_io (acquire env u d) (\<lambda>v. process_downloaded env d))"
  by (intro emits_bind emits_weaken [OF emits_acquire] emits_weaken [OF emits_process_downloaded])
    simp_all

lemma process_url_workspace:
  assumes "url_hostname env u = Some h" and "isAllowed (validDomains env) h"
    and "nanoid env None w = (ident, w1)"
    and "d = path_join env (tmpdir env) (''gifselector-import-'' @ ident)"
    and "mkdir env d w1 = (Inr (), w2)"
    and "bind_io (acquire env u d) (\<lambda>v. process_downloaded env d)
           \<lparr>world = w2, trace = tr @ [EvMkdir d],
            result = \<lparr>url = u, success = False, slug = None, error = None\<rparr>\<rparr> = (r, s1)"
  shows "process_url env u (w, tr) =
           (case r of Inl message \<Rightarrow> (result s1)\<lparr>error := Some message\<rparr> | Inr v \<Rightarrow> result s1,
            snd (rm env d (world s1)), trace s1 @ [EvRm d])"
proof -
  define s0 where "s0 = \<lparr>world = w, trace = tr,
      result = \<lparr>url = u, success = False, slug = None, error = None\<rparr>\<rparr>"
  have "import_url env u s0 =
          (r, s1\<lparr>world := snd (rm env d (world s1)), trace := trace s1 @ [EvRm d]\<rparr>)"
    by (rule import_url_workspace [OF assms(1,2) _ assms(4,5)])
      (use assms(3,6) in \<open>simp_all add: s0_def\<close>)
  then show ?thesis
    by (simp add: process_url_def s0_def [symmetric] split: sum.split)
qed

text \<open>
  C3. Once \<^verbatim>\<open>mkdir\<close> has made the workspace of a URL, the URL is processed in three
  steps: acquisition and the loop over the files run from the state left by \<^verbatim>\<open>mkdir\<close>
  and end, by a return or by a throw \<open>r\<close>, in a state \<open>s1\<close>; then \<^verbatim>\<open>rm\<close> is called on
  the workspace in the world of \<open>s1\<close>, and the world after the URL is the world that this
  call returns; only then is the entry returned. The removal is the last event of the URL's
  trace and no other removal precedes it. The entry does not depend on what the removal does:
  with any other \<^verbatim>\<open>rm\<close>, failing or not, it is the same.
\<close>

theorem workspace_always_removed:
  assumes "url_hostname env urlStr = Some hostname"
    and "isAllowed (validDomains env) hostname"
    and "nanoid env None w = (ident, w1)"
    and "tempDir = path_join env (tmpdir env) (''gifselector-import-'' @ ident)"
    and "mkdir env tempDir w1 = (Inr (), w2)"
  shows "(\<exists>r s1 evs.
            bind_io (acquire env urlStr tempDir) (\<lambda>v. process_downloaded env tempDir)
              \<lparr>world = w2, trace = tr @ [EvMkdir tempDir],
               result = \<lparr>url = urlStr, success = False, slug = None, error = None\<rparr>\<rparr> =
              (r, s1) \<and>
            trace s1 = tr @ [EvMkdir tempDir] @ evs \<and>
            (\<forall>p. EvRm p \<notin> set evs) \<and>
            process_url env urlStr (w, tr) =
              (case r of Inl message \<Rightarrow> (result s1)\<lparr>error := Some message\<rparr>
               | Inr v \<Rightarrow> result s1,
               snd (rm env tempDir (world s1)),
               tr @ [EvMkdir tempDir] @ evs @ [EvRm tempDir])) \<and>
         (\<forall>removal. fst (process_url (env\<lparr>rm := removal\<rparr>) urlStr (w, tr)) =
                    fst (process_url env urlStr (w, tr)))"
proof
  define s0 where "s0 = \<lparr>world = w2, trace = tr @ [EvMkdir tempDir],
      result = \<lparr>url = urlStr, success = False, slug = None, error = None\<rparr>\<rparr>"
  obtain r s1 where b:
    "bind_io (acquire env urlStr tempDir) (\<lambda>v. process_downloaded env tempDir) s0 = (r, s1)"
    by (cases "bind_io (acquire env urlStr tempDir) (\<lambda>v. process_downloaded env tempDir) s0")
  note run = process_url_workspace [OF assms b [unfolded s0_def]]
  from emitsD [OF emits_staged b] obtain evs where
    t: "trace s1 = trace s0 @ evs" "list_all (\<lambda>ev. is_acquire ev \<or> loop_event ev) evs" by blast
  from t(2) have n: "\<forall>p. EvRm p \<notin> set evs"
    by (auto simp: list_all_iff is_acquire_def is_net_def loop_event_def is_tool_def is_store_def)
  from t(1) have t': "trace s1 = tr @ [EvMkdir tempDir] @ evs" by (simp add: s0_def)
  from run t' have run': "process_url env urlStr (w, tr) =
              (case r of Inl message \<Rightarrow> (result s1)\<lparr>error := Some message\<rparr>
               | Inr v \<Rightarrow> result s1,
               snd (rm env tempDir (world s1)),
               tr @ [EvMkdir tempDir] @ evs @ [EvRm tempDir])"
    by simp
  from b [unfolded s0_def] t' n run'
  show "\<exists>r s1 evs.
            bind_io (acquire env urlStr tempDir) (\<lambda>v. process_downloaded env tempDir)
              \<lparr>world = w2, trace = tr @ [EvMkdir tempDir],
               result = \<lparr>url = urlStr, success = False, slug = None, error = None\<rparr>\<rparr> =
              (r, s1) \<and>
            trace s1 = tr @ [EvMkdir tempDir] @ evs \<and>
            (\<forall>p. EvRm p \<notin> set evs) \<and>
            process_url env urlStr (w, tr) =
              (case r of Inl message \<Rightarrow> (result s1)\<lparr>error := Some message\<rparr>
               | Inr v \<Rightarrow> result s1,
               snd (rm env tempDir (world s1)),
               tr @ [EvMkdir tempDir] @ evs @ [EvRm tempDir])"
    by (intro exI conjI)
  show "\<forall>removal. fst (process_url (env\<lparr>rm := removal\<rparr>) urlStr (w, tr)) =
                    fst (process_url env urlStr (w, tr))"
  proof
    fix removal
    let ?env = "env\<lparr>rm := removal\<rparr>"
    have b': "bind_io (acquire ?env urlStr tempDir) (\<lambda>v. process_downloaded ?env tempDir)
        \<lparr>world = w2, trace = tr @ [EvMkdir tempDir],
         result = \<lparr>url = urlStr, success = False, slug = None, error = None\<rparr>\<rparr> = (r, s1)"
      using b by (simp add: acquire_rm process_downloaded_rm s0_def)
    have "process_url ?env urlStr (w, tr) =
           (case r of Inl message \<Rightarrow> (result s1)\<lparr>error := Some message\<rparr> | Inr v \<Rightarrow> result s1,
            snd (rm ?env tempDir (world s1)), trace s1 @ [EvRm tempDir])"
      by (rule process_url_workspace [OF _ _ _ _ _ b']) (use assms in simp_all)
    with run show "fst (process_url ?env urlStr (w, tr)) = fst (process_url env urlStr (w, tr))"
      by simp
  qed
qed

theorem workspace_always_removed_witness:
  "url_hostname demo_env (JStr ''https://tenor.com/view/cat'') = Some ''tenor.com''
   \<and> isAllowed (validDomains demo_env) ''tenor.com''
   \<and> nanoid demo_env None 0 = (''V1StGXR8_Z5jdHi6B-myT'', 0)
   \<and> mkdir demo_env ''/tmp/gifselector-import-V1StGXR8_Z5jdHi6B-myT'' 0 = (Inr (), 0)
   \<and> (\<exists>evs. snd (snd (process_url demo_env (JStr ''https://tenor.com/view/cat'') (0, []))) =
              [] @ [EvMkdir ''/tmp/gifselector-import-V1StGXR8_Z5jdHi6B-myT''] @ evs @
              [EvRm ''/tmp/gifselector-import-V1StGXR8_Z5jdHi6B-myT''] \<and>
            (\<forall>p. EvRm p \<notin> set evs))
   \<and> fst (process_url (demo_env\<lparr>rm := busy_rm\<rparr>) (JStr ''https://tenor.com/view/cat'') (0, [])) =
       fst (process_url demo_env (JStr ''https://tenor.com/view/cat'') (0, []))
   \<and> fst (snd (process_url (demo_env\<lparr>rm := marking_rm\<rparr>)
        (JStr ''https://tenor.com/view/cat'') (0, []))) = 99"
proof -
  let ?u = "JStr ''https://tenor.com/view/cat''"
  let ?d = "''/tmp/gifselector-import-V1StGXR8_Z5jdHi6B-myT''"
  let ?M = "demo_env\<lparr>rm := marking_rm\<rparr>"
  have 1: "url_hostname demo_env ?u = Some ''tenor.com''"
    and 2: "isAllowed (validDomains demo_env) ''tenor.com''"
    and 3: "nanoid demo_env None 0 = (''V1StGXR8_Z5jdHi6B-myT'', 0)"
    and 4: "?d = path_join demo_env (tmpdir demo_env)
              (''gifselector-import-'' @ ''V1StGXR8_Z5jdHi6B-myT'')"
    and 5: "mkdir demo_env ?d 0 = (Inr (), 0)"
    by (simp_all add: demo_defs isAllowed_def)
  have m1: "url_hostname ?M ?u = Some ''tenor.com''"
    and m2: "isAllowed (validDomains ?M) ''tenor.com''"
    and m3: "nanoid ?M None 0 = (''V1StGXR8_Z5jdHi6B-myT'', 0)"
    and m4: "?d = path_join ?M (tmpdir ?M) (''gifselector-import-'' @ ''V1StGXR8_Z5jdHi6B-myT'')"
    and m5: "mkdir ?M ?d 0 = (Inr (), 0)"
    and m6: "snd (rm ?M ?d x) = 99" for x
    by (simp_all add: demo_defs isAllowed_def marking_rm_def)
  note a = workspace_always_removed [OF 1 2 3 4 5, of "[]"]
  from a have a1: "\<exists>evs. snd (snd (process_url demo_env ?u (0, []))) =
              [] @ [EvMkdir ?d] @ evs @ [EvRm ?d] \<and> (\<forall>p. EvRm p \<notin> set evs)"
    by (elim conjE exE) (intro exI conjI, simp_all)
  from a have a2: "fst (process_url (demo_env\<lparr>rm := busy_rm\<rparr>) ?u (0, [])) =
       fst (process_url demo_env ?u (0, []))"
    by blast
  from workspace_always_removed [OF m1 m2 m3 m4 m5, of "[]"]
  have a3: "fst (snd (process_url ?M ?u (0, []))) = 99"
    by (elim conjE exE) (simp add: marking_rm_def)
  from 1 2 3 5 a1 a2 a3 show ?thesis by (intro conjI)
qed
subsection \<open>The loop over the downloaded files\<close>

lemma stored_slugs_simps:
  "stored_slugs [] = []"
  "stored_slugs (ev # evs) = (case ev of EvAddGif a \<Rightarrow> [asset_slug a] | _ \<Rightarrow> []) @ stored_slugs evs"
  by (simp_all add: stored_slugs_def)

lemma no_slugs: "list_all (\<lambda>ev. \<forall>a. ev \<noteq> EvAddGif a) evs \<Longrightarrow> stored_slugs evs = []"
  by (induction evs) (auto simp: stored_slugs_def split: event.splits)

lemma convert_stores_nothing: "emits (\<lambda>ev. \<forall>a. ev \<noteq> EvAddGif a) (convert env f ext mp4)"
  by (rule emits_weaken [OF emits_convert]) (auto simp: is_tool_def)

lemma acquire_stores_nothing: "emits (\<lambda>ev. \<forall>a. ev \<noteq> EvAddGif a) (acquire env u d)"
  by (rule emits_weaken [OF emits_acquire]) (auto simp: is_acquire_def is_net_def)

lemma persist_count:
  assumes "persist env f x s = (r, s')"
  shows "\<exists>evs. trace s' = trace s @ evs \<and> length (stored_slugs evs) \<le> 1 \<and>
               (r = Inr False \<longrightarrow> stored_slugs evs = [])"
proof -
  obtain p e m where x: "x = (p, e, m)" by (cases x)
  show ?thesis
    using assms unfolding x persist_def Let_def
    by (auto simp: bind_io_def call_def sample_def return_io_def set_success_def stored_slugs_def
        split: if_splits prod.splits sum.splits)
qed

lemma process_file_count:
  assumes "process_file env f s = (r, s')"
  shows "\<exists>evs. trace s' = trace s @ evs \<and> length (stored_slugs evs) \<le> 1 \<and>
               (r = Inr False \<longrightarrow> stored_slugs evs = [])"
proof (cases "toLowerCase env (path_extname env f) \<notin> set ALLOWED_EXTENSIONS
              \<and> toLowerCase env (path_extname env f) \<noteq> ''.mp4''")
  case True
  with assms show ?thesis by (auto simp: process_file_def return_io_def stored_slugs_def)
next
  case False
  define ext where "ext = toLowerCase env (path_extname env f)"
  obtain r1 s1 where c: "convert env f ext (ext = ''.mp4'') s = (r1, s1)"
    by (cases "convert env f ext (ext = ''.mp4'') s")
  from emitsD [OF convert_stores_nothing c] obtain evs1 where
    t: "trace s1 = trace s @ evs1" "stored_slugs evs1 = []" by (auto dest: no_slugs)
  show ?thesis
  proof (cases r1)
    case (Inl e)
    with assms False c t show ?thesis
      by (auto simp: process_file_def Let_def ext_def bind_io_def)
  next
    case (Inr x)
    with assms False c have "persist env f x s1 = (r, s')"
      by (simp add: process_file_def Let_def ext_def bind_io_def)
    from persist_count [OF this] t show ?thesis by auto
  qed
qed








subsection \<open>Primary download and fallback\<close>

lemma bind_call_first:
  assumes "\<And>x. emits P (f x)"
  shows "\<exists>evs. trace (snd (bind_io (call ev operation) f s)) = trace s @ ev # evs"
proof -
  obtain r1 w1 where c: "operation (world s) = (r1, w1)" by (cases "operation (world s)")
  show ?thesis
  proof (cases r1)
    case (Inl e)
    with c show ?thesis by (simp add: bind_io_def call_def)
  next
    case (Inr x)
    obtain r2 s2 where f: "f x (s\<lparr>world := w1, trace := trace s @ [ev]\<rparr>) = (r2, s2)"
      by (cases "f x (s\<lparr>world := w1, trace := trace s @ [ev]\<rparr>)")
    from emitsD [OF assms f] obtain evs where "trace s2 = (trace s @ [ev]) @ evs" by auto
    with c Inr f show ?thesis by (simp add: bind_io_def call_def)
  qed
qed

lemma fallback_fetches:
  "\<exists>evs. trace (snd (fallback env u d s)) =
     trace s @ EvFetch u ''Mozilla/5.0 (compatible; GifSelector/1.0; +http://localhost)'' # evs"
  unfolding fallback_def Let_def
  by (rule bind_call_first [where P = "\<lambda>ev. True"])
    (intro emits_rules emits_if emits_case_sum TrueI)

lemma loop_event_not_fetch: "loop_event ev \<Longrightarrow> ev \<noteq> EvFetch u a"
  by (auto simp: loop_event_def is_tool_def is_store_def)

text \<open>
  C7 as stated fails: the downloader exits with success and leaves the workspace empty;
  nothing is fetched, and the URL fails with "No files downloaded by gallery-dl".
\<close>

theorem empty_workspace_counterexample:
  "process_url empty_workspace_env (JStr ''https://tenor.com/view/cat'') (0, []) =
     (\<lparr>url = JStr ''https://tenor.com/view/cat'', success = False, slug = None,
       error = Some ''No files downloaded by gallery-dl''\<rparr>,
      0,
      [EvMkdir ''/tmp/gifselector-import-V1StGXR8_Z5jdHi6B-myT'',
       EvExecFile ''gallery-dl''
         [JStr ''--directory'', JStr ''/tmp/gifselector-import-V1StGXR8_Z5jdHi6B-myT'',
          JStr ''https://tenor.com/view/cat''],
       EvRm ''/tmp/gifselector-import-V1StGXR8_Z5jdHi6B-myT''])"
  by (simp add: empty_workspace_env_def run_defs demo_defs Let_def)

text \<open>
  C7 (as amended). Once the workspace exists, the fallback is taken exactly when the call
  of the downloader is rejected: a page or media fetch occurs among the calls made for the
  URL if and only if \<^verbatim>\<open>execFile\<close> of \<^verbatim>\<open>gallery-dl\<close> gave an error. Where the
  downloader succeeds and the workspace holds no file, the URL fails with "No files
  downloaded by gallery-dl" after exactly three calls: \<^verbatim>\<open>mkdir\<close>, the downloader, and
  the removal of the workspace.
\<close>

theorem fallback_exactly_on_downloader_failure:
  assumes "url_hostname env urlStr = Some hostname"
    and "isAllowed (validDomains env) hostname"
    and "nanoid env None w = (ident, w1)"
    and "tempDir = path_join env (tmpdir env) (''gifselector-import-'' @ ident)"
    and "mkdir env tempDir w1 = (Inr (), w2)"
    and "execFile env ''gallery-dl'' [JStr ''--directory'', JStr tempDir, urlStr] w2 = (dl, w3)"
  shows "((\<exists>u agent. EvFetch u agent \<in>
            set (drop (length tr) (snd (snd (process_url env urlStr (w, tr))))))
          \<longleftrightarrow> (\<exists>e. dl = Inl e))
       \<and> (dl = Inr () \<and> findFiles (path_join env) tempDir (readdir_tree env tempDir w3) = Inr []
            \<longrightarrow> process_url env urlStr (w, tr) =
                  (\<lparr>url = urlStr, success = False, slug = None,
                    error = Some ''No files downloaded by gallery-dl''\<rparr>,
                   snd (rm env tempDir w3),
                   tr @ [EvMkdir tempDir,
                         EvExecFile ''gallery-dl'' [JStr ''--directory'', JStr tempDir, urlStr],
                         EvRm tempDir]))"
proof -
  let ?dl = "EvExecFile ''gallery-dl'' [JStr ''--directory'', JStr tempDir, urlStr]"
  define s0 where "s0 = \<lparr>world = w2, trace = tr @ [EvMkdir tempDir],
      result = \<lparr>url = urlStr, success = False, slug = None, error = None\<rparr>\<rparr>"
  define s1 where "s1 = s0\<lparr>world := w3, trace := trace s0 @ [?dl]\<rparr>"
  obtain r s2 where b:
    "bind_io (acquire env urlStr tempDir) (\<lambda>v. process_downloaded env tempDir) s0 = (r, s2)"
    by (cases "bind_io (acquire env urlStr tempDir) (\<lambda>v. process_downloaded env tempDir) s0")
  note run = process_url_workspace [OF assms(1-5) b [unfolded s0_def]]
  have new: "drop (length tr) (snd (snd (process_url env urlStr (w, tr)))) =
      drop (length tr) (trace s2) @ [EvRm tempDir]"
  proof -
    from emitsD [OF emits_staged b] obtain evs where "trace s2 = trace s0 @ evs" by blast
    with run show ?thesis by (simp add: s0_def)
  qed
  show ?thesis
  proof (cases dl)
    case (Inl e)
    have a: "acquire env urlStr tempDir s0 = fallback env urlStr tempDir s1"
      using assms(6) Inl by (simp add: acquire_def try_catch_def call_def s0_def s1_def)
    obtain ra sa where f: "fallback env urlStr tempDir s1 = (ra, sa)"
      by (cases "fallback env urlStr tempDir s1")
    from fallback_fetches [of env urlStr tempDir s1] f obtain agent evs where
      t: "trace sa = trace s1 @ EvFetch urlStr agent # evs" by auto
    have "\<exists>evs'. trace s2 = trace sa @ evs'"
    proof (cases ra)
      case (Inl e')
      with a f b show ?thesis by (simp add: bind_io_def)
    next
      case (Inr v)
      with a f b have "process_downloaded env tempDir sa = (r, s2)" by (simp add: bind_io_def)
      from emitsD [OF emits_process_downloaded this] show ?thesis by blast
    qed
    then obtain evs' where "trace s2 = trace sa @ evs'" by blast
    with t have "EvFetch urlStr agent \<in> set (drop (length tr) (trace s2))"
      by (simp add: s1_def s0_def)
    with new have "\<exists>u agent. EvFetch u agent \<in>
            set (drop (length tr) (snd (snd (process_url env urlStr (w, tr)))))"
      by (intro exI [of _ urlStr] exI [of _ agent]) simp
    with Inl show ?thesis by blast
  next
    case (Inr v)
    have a: "acquire env urlStr tempDir s0 = (Inr (), s1)"
      using assms(6) Inr by (simp add: acquire_def try_catch_def call_def s0_def s1_def)
    with b have p: "process_downloaded env tempDir s1 = (r, s2)" by (simp add: bind_io_def)
    from emitsD [OF emits_process_downloaded p] obtain evs where
      t: "trace s2 = trace s1 @ evs" "list_all loop_event evs" by blast
    then have "EvFetch u agent \<notin> set evs" for u agent
      by (auto simp: list_all_iff dest: loop_event_not_fetch)
    with t have "EvFetch u agent \<notin> set (drop (length tr) (trace s2) @ [EvRm tempDir])"
      for u agent
      by (simp add: s1_def s0_def)
    then have 1: "\<not> (\<exists>u agent. EvFetch u agent \<in>
            set (drop (length tr) (snd (snd (process_url env urlStr (w, tr))))))"
      unfolding new by blast
    have 2: "process_url env urlStr (w, tr) =
                  (\<lparr>url = urlStr, success = False, slug = None,
                    error = Some ''No files downloaded by gallery-dl''\<rparr>,
                   snd (rm env tempDir w3), tr @ [EvMkdir tempDir, ?dl, EvRm tempDir])"
      if "findFiles (path_join env) tempDir (readdir_tree env tempDir w3) = Inr []"
    proof -
      from that p have "r = Inl ''No files downloaded by gallery-dl''" "s2 = s1"
        by (simp_all add: process_downloaded_def list_files_def bind_io_def throw_io_def s1_def)
      with run show ?thesis by (simp add: s1_def s0_def)
    qed
    from 1 2 Inr show ?thesis by blast
  qed
qed

theorem fallback_exactly_on_downloader_failure_witness:
  "url_hostname empty_workspace_env (JStr ''https://tenor.com/view/cat'') = Some ''tenor.com''
   \<and> isAllowed (validDomains empty_workspace_env) ''tenor.com''
   \<and> execFile empty_workspace_env ''gallery-dl''
        [JStr ''--directory'', JStr ''/tmp/gifselector-import-V1StGXR8_Z5jdHi6B-myT'',
         JStr ''https://tenor.com/view/cat''] 0 = (Inr (), 0)
   \<and> findFiles (path_join empty_workspace_env) ''/tmp/gifselector-import-V1StGXR8_Z5jdHi6B-myT''
        (readdir_tree empty_workspace_env ''/tmp/gifselector-import-V1StGXR8_Z5jdHi6B-myT'' 0) =
       Inr []
   \<and> \<not> (\<exists>u agent. EvFetch u agent \<in> set (drop (length ([] :: event list))
           (snd (snd (process_url empty_workspace_env (JStr ''https://tenor.com/view/cat'')
              (0, []))))))
   \<and> fst (process_url empty_workspace_env (JStr ''https://tenor.com/view/cat'') (0, [])) =
       \<lparr>url = JStr ''https://tenor.com/view/cat'', success = False, slug = None,
        error = Some ''No files downloaded by gallery-dl''\<rparr>
   \<and> execFile no_downloader_env ''gallery-dl''
        [JStr ''--directory'', JStr ''/tmp/gifselector-import-V1StGXR8_Z5jdHi6B-myT'',
         JStr ''https://tenor.com/view/cat''] 0 = (Inl ''spawn gallery-dl ENOENT'', 0)
   \<and> (\<exists>u agent. EvFetch u agent \<in> set (drop (length ([] :: event list))
         (snd (snd (process_url no_downloader_env (JStr ''https://tenor.com/view/cat'')
            (0, []))))))"
proof -
  let ?u = "JStr ''https://tenor.com/view/cat''"
  let ?d = "''/tmp/gifselector-import-V1StGXR8_Z5jdHi6B-myT''"
  have e1: "url_hostname empty_workspace_env ?u = Some ''tenor.com''"
    and e2: "isAllowed (validDomains empty_workspace_env) ''tenor.com''"
    and e3: "nanoid empty_workspace_env None 0 = (''V1StGXR8_Z5jdHi6B-myT'', 0)"
    and e4: "?d = path_join empty_workspace_env (tmpdir empty_workspace_env)
               (''gifselector-import-'' @ ''V1StGXR8_Z5jdHi6B-myT'')"
    and e5: "mkdir empty_workspace_env ?d 0 = (Inr (), 0)"
    and e6: "execFile empty_workspace_env ''gallery-dl'' [JStr ''--directory'', JStr ?d, ?u] 0 =
               (Inr (), 0)"
    and e7: "findFiles (path_join empty_workspace_env) ?d
               (readdir_tree empty_workspace_env ?d 0) = Inr []"
    by (simp_all add: empty_workspace_env_def demo_defs isAllowed_def)
  have n1: "url_hostname no_downloader_env ?u = Some ''tenor.com''"
    and n2: "isAllowed (validDomains no_downloader_env) ''tenor.com''"
    and n3: "nanoid no_downloader_env None 0 = (''V1StGXR8_Z5jdHi6B-myT'', 0)"
    and n4: "?d = path_join no_downloader_env (tmpdir no_downloader_env)
               (''gifselector-import-'' @ ''V1StGXR8_Z5jdHi6B-myT'')"
    and n5: "mkdir no_downloader_env ?d 0 = (Inr (), 0)"
    and n6: "execFile no_downloader_env ''gallery-dl'' [JStr ''--directory'', JStr ?d, ?u] 0 =
               (Inl ''spawn gallery-dl ENOENT'', 0)"
    by (simp_all add: no_downloader_env_def demo_defs isAllowed_def)
  note a = fallback_exactly_on_downloader_failure [OF e1 e2 e3 e4 e5 e6, of "[]"]
  note b = fallback_exactly_on_downloader_failure [OF n1 n2 n3 n4 n5 n6, of "[]"]
  from a have a1: "\<not> (\<exists>u agent. EvFetch u agent \<in> set (drop (length ([] :: event list))
           (snd (snd (process_url empty_workspace_env ?u (0, []))))))"
    by blast
  from a e7 have a2: "fst (process_url empty_workspace_env ?u (0, [])) =
       \<lparr>url = ?u, success = False, slug = None,
        error = Some ''No files downloaded by gallery-dl''\<rparr>"
    by simp
  from b have b1: "\<exists>u agent. EvFetch u agent \<in> set (drop (length ([] :: event list))
         (snd (snd (process_url no_downloader_env ?u (0, [])))))"
    by blast
  from e1 e2 e6 e7 a1 a2 n6 b1 show ?thesis by (intro conjI)
qed

subsection \<open>The size cap\<close>

lemma handler_trace_storable:
  assumes "import_handler env req_body w = (resp, w', tr)"
  shows "list_all storable tr"
proof (cases "\<exists>urls. req_body ''urls'' = Some (JArr urls)")
  case True
  then obtain urls where u: "req_body ''urls'' = Some (JArr urls)" by blast
  obtain rs w1 tr1 where p: "process_urls env urls (w, []) = (rs, w1, tr1)"
    by (cases "process_urls env urls (w, [])") auto
  with assms u have "tr = tr1" by (simp add: import_handler_def)
  with process_urls_spec [OF p] show ?thesis by simp
next
  case False
  with assms have "tr = []"
    by (auto simp: import_handler_def split: option.splits json.splits)
  then show ?thesis by simp
qed

text \<open>
  C8 as stated fails: a file of exactly 15728640 bytes is not skipped but stored.
\<close>

theorem exact_cap_counterexample:
  "process_url exact_cap_env (JStr ''https://tenor.com/view/cat'') (0, []) =
     (\<lparr>url = JStr ''https://tenor.com/view/cat'', success = True,
       slug = Some ''V1StGXR8_Z'', error = None\<rparr>,
      1,
      [EvMkdir ''/tmp/gifselector-import-V1StGXR8_Z5jdHi6B-myT'',
       EvExecFile ''gallery-dl''
         [JStr ''--directory'', JStr ''/tmp/gifselector-import-V1StGXR8_Z5jdHi6B-myT'',
          JStr ''https://tenor.com/view/cat''],
       EvExecFile ''magick''
         [JStr ''/tmp/gifselector-import-V1StGXR8_Z5jdHi6B-myT/cat.gif'', JStr ''-coalesce'',
          JStr ''-quality'', JStr ''80'',
          JStr ''/tmp/gifselector-import-V1StGXR8_Z5jdHi6B-myT/cat.webp''],
       EvExecFile ''convert''
         [JStr ''/tmp/gifselector-import-V1StGXR8_Z5jdHi6B-myT/cat.gif'', JStr ''-coalesce'',
          JStr ''-quality'', JStr ''80'',
          JStr ''/tmp/gifselector-import-V1StGXR8_Z5jdHi6B-myT/cat.webp''],
       EvStat ''/tmp/gifselector-import-V1StGXR8_Z5jdHi6B-myT/cat.gif'',
       EvCopyFile ''/tmp/gifselector-import-V1StGXR8_Z5jdHi6B-myT/cat.gif''
         ''/data/uploads/1700-V1StGX.gif'',
       EvAddGif \<lparr>asset_slug = ''V1StGXR8_Z'', filename = ''1700-V1StGX.gif'',
                 originalName = ''cat.gif'', mimeType = Some ''image/gif'',
                 sizeBytes = 15728640\<rparr>,
       EvRm ''/tmp/gifselector-import-V1StGXR8_Z5jdHi6B-myT''])"
  by (simp add: exact_cap_env_def run_defs demo_defs Let_def string_of_nat.simps digit_char_def)

text \<open>
  C8 (as amended). Every asset handed to \<^verbatim>\<open>addGif\<close> during a request has at most
  15728640 bytes. A candidate whose final artifact has more than 15728640 bytes is
  skipped after the \<^verbatim>\<open>stat\<close>: nothing is copied, no asset is recorded, the iteration
  ends without an error and the loop goes on with the files that follow.
\<close>

theorem stored_within_cap:
  "(import_handler env req_body w = (resp, w', tr) \<and> EvAddGif a \<in> set tr \<longrightarrow>
      sizeBytes a \<le> 15728640)
   \<and> (ext = toLowerCase env (path_extname env filePath) \<and>
       (ext \<in> set ALLOWED_EXTENSIONS \<or> ext = ''.mp4'') \<and>
       convert env filePath ext (ext = ''.mp4'') s =
         (Inr (finalFilePath, finalExt, finalMimeType), s1) \<and>
       finalExt \<noteq> ''.mp4'' \<and>
       stat env finalFilePath (world s1) = (Inr bytes, w2) \<and> 15728640 < bytes \<longrightarrow>
       process_file env filePath s =
         (Inr False, s1\<lparr>world := w2, trace := trace s1 @ [EvStat finalFilePath]\<rparr>) \<and>
       process_files env (filePath # rest) False s =
         process_files env rest False
           (s1\<lparr>world := w2, trace := trace s1 @ [EvStat finalFilePath]\<rparr>))"
proof (intro conjI impI)
  assume "import_handler env req_body w = (resp, w', tr) \<and> EvAddGif a \<in> set tr"
  with handler_trace_storable [of env req_body w resp w' tr] have "storable (EvAddGif a)"
    by (auto simp: list_all_iff)
  then show "sizeBytes a \<le> 15728640"
    by (simp add: storable_def MAX_DOWNLOAD_SIZE_def)
next
  assume h: "ext = toLowerCase env (path_extname env filePath) \<and>
       (ext \<in> set ALLOWED_EXTENSIONS \<or> ext = ''.mp4'') \<and>
       convert env filePath ext (ext = ''.mp4'') s =
         (Inr (finalFilePath, finalExt, finalMimeType), s1) \<and>
       finalExt \<noteq> ''.mp4'' \<and>
       stat env finalFilePath (world s1) = (Inr bytes, w2) \<and> 15728640 < bytes"
  then have 1: "process_file env filePath s =
      (Inr False, s1\<lparr>world := w2, trace := trace s1 @ [EvStat finalFilePath]\<rparr>)"
    by (auto simp: process_file_def Let_def bind_io_def persist_def call_def return_io_def
        MAX_DOWNLOAD_SIZE_def)
  then show "process_file env filePath s =
      (Inr False, s1\<lparr>world := w2, trace := trace s1 @ [EvStat finalFilePath]\<rparr>)" .
  from 1 show "process_files env (filePath # rest) False s =
         process_files env rest False
           (s1\<lparr>world := w2, trace := trace s1 @ [EvStat finalFilePath]\<rparr>)"
    by (simp add: bind_io_def)
qed

theorem stored_within_cap_witness:
  "(\<exists>resp w' tr a. import_handler demo_env two_urls_body 0 = (resp, w', tr) \<and>
        EvAddGif a \<in> set tr \<and> sizeBytes a \<le> 15728640)
   \<and> convert over_cap_env ''/w/cat.webp'' ''.webp'' (''.webp'' = ''.mp4'') demo_state =
        (Inr (''/w/cat.webp'', ''.webp'', Some ''image/webp''), demo_state)
   \<and> stat over_cap_env ''/w/cat.webp'' (world demo_state) = (Inr 15728641, 0)
   \<and> process_file over_cap_env ''/w/cat.webp'' demo_state =
        (Inr False, demo_state\<lparr>world := 0, trace := trace demo_state @ [EvStat ''/w/cat.webp'']\<rparr>)
   \<and> process_files over_cap_env [''/w/cat.webp'', ''/w/more.gif''] False demo_state =
        process_files over_cap_env [''/w/more.gif''] False
          (demo_state\<lparr>world := 0, trace := trace demo_state @ [EvStat ''/w/cat.webp'']\<rparr>)"
proof -
  obtain resp w' tr where run: "import_handler demo_env two_urls_body 0 = (resp, w', tr)"
    by (cases "import_handler demo_env two_urls_body 0") auto
  with two_urls_run have "EvAddGif \<lparr>asset_slug = ''V1StGXR8_Z'', filename = ''1700-V1StGX.gif'',
                 originalName = ''cat.gif'', mimeType = Some ''image/gif'', sizeBytes = 2048\<rparr>
      \<in> set tr" (is "EvAddGif ?a \<in> _")
    by auto
  with run stored_within_cap [of demo_env two_urls_body 0 resp w' tr ?a]
  have 1: "\<exists>resp w' tr a. import_handler demo_env two_urls_body 0 = (resp, w', tr) \<and>
        EvAddGif a \<in> set tr \<and> sizeBytes a \<le> 15728640"
    by blast
  have 2: "''.webp'' = toLowerCase over_cap_env (path_extname over_cap_env ''/w/cat.webp'')"
    and 3: "''.webp'' \<in> set ALLOWED_EXTENSIONS"
    and 4: "convert over_cap_env ''/w/cat.webp'' ''.webp'' (''.webp'' = ''.mp4'') demo_state =
        (Inr (''/w/cat.webp'', ''.webp'', Some ''image/webp''), demo_state)"
    and 5: "stat over_cap_env ''/w/cat.webp'' (world demo_state) = (Inr 15728641, 0)"
    by (simp_all add: over_cap_env_def demo_state_def demo_defs ascii_lower_def
        ALLOWED_EXTENSIONS_def convert_def EXTENSION_MIME_MAP_def return_io_def)
  from 2 3 4 5
    stored_within_cap [where env = over_cap_env and ext = "''.webp''"
      and filePath = "''/w/cat.webp''" and s = demo_state and finalFilePath = "''/w/cat.webp''"
      and finalExt = "''.webp''" and finalMimeType = "Some ''image/webp''" and ?s1.0 = demo_state
      and bytes = 15728641 and ?w2.0 = 0 and rest = "[''/w/more.gif'']"]
  have 6: "process_file over_cap_env ''/w/cat.webp'' demo_state =
        (Inr False, demo_state\<lparr>world := 0, trace := trace demo_state @ [EvStat ''/w/cat.webp'']\<rparr>)"
    and 7: "process_files over_cap_env [''/w/cat.webp'', ''/w/more.gif''] False demo_state =
        process_files over_cap_env [''/w/more.gif''] False
          (demo_state\<lparr>world := 0, trace := trace demo_state @ [EvStat ''/w/cat.webp'']\<rparr>)"
    by simp_all
  from 1 4 5 6 7 show ?thesis by (intro conjI)
qed

subsection \<open>The size checks of the fallback\<close>

lemma length_big_buffer: "length big_buffer = 15728641"
  unfolding big_buffer_def by (rule length_replicate)

text \<open>
  C6. The downloader has failed and the fallback has found and requested the media. If
  the response declares a \<^verbatim>\<open>Content-Length\<close> over 15728640, the URL fails with
  "Fallback media file too large" and the only calls made for it are \<^verbatim>\<open>mkdir\<close>, the
  downloader, the two fetches with the reading of the page, and the removal of the
  workspace: the body is not read, no file is written, nothing is stored. If the declared
  length does not reject the response and the body read has more than 15728640 bytes, the
  URL fails with the same error after the body has been read, again with no file written
  and nothing stored.
\<close>

theorem oversized_fallback_media_rejected:
  assumes "url_hostname env urlStr = Some hostname"
    and "isAllowed (validDomains env) hostname"
    and "nanoid env None w = (ident, w1)"
    and "tempDir = path_join env (tmpdir env) (''gifselector-import-'' @ ident)"
    and "mkdir env tempDir w1 = (Inr (), w2)"
    and "execFile env ''gallery-dl'' [JStr ''--directory'', JStr tempDir, urlStr] w2 =
           (Inl dlError, w3)"
    and "fetch env urlStr ''Mozilla/5.0 (compatible; GifSelector/1.0; +http://localhost)'' w3 =
           (Inr pageResp, w4)"
    and "ok pageResp"
    and "resp_text env pageResp w4 = (Inr html, w5)"
    and "js_or (extractMeta env html ''og:video'')
           (js_or (extractMeta env html ''og:video:url'')
             (js_or (extractMeta env html ''og:image'')
               (extractMeta env html ''twitter:image''))) = Some found"
    and "found \<noteq> []"
    and "mediaUrl = replace_amp found"
    and "fetch env (JStr mediaUrl) ''GifSelector/1.0'' w5 = (Inr mediaResp, w6)"
    and "ok mediaResp"
  shows "(headers mediaResp ''content-length'' = Some declared \<and> declared \<noteq> [] \<and>
          Number env declared = Num v \<and> 15728640 < v \<longrightarrow>
          process_url env urlStr (w, tr) =
            (\<lparr>url = urlStr, success = False, slug = None,
              error = Some ''Fallback media file too large''\<rparr>,
             snd (rm env tempDir w6),
             tr @ [EvMkdir tempDir,
                   EvExecFile ''gallery-dl'' [JStr ''--directory'', JStr tempDir, urlStr],
                   EvFetch urlStr ''Mozilla/5.0 (compatible; GifSelector/1.0; +http://localhost)'',
                   EvReadBody,
                   EvFetch (JStr mediaUrl) ''GifSelector/1.0'',
                   EvRm tempDir]))
       \<and> (\<not> (truthy (headers mediaResp ''content-length'') \<and>
               js_gt (Number env (the (headers mediaResp ''content-length''))) MAX_DOWNLOAD_SIZE) \<and>
            resp_arrayBuffer env mediaResp w6 = (Inr buffer, w7) \<and> 15728640 < length buffer \<longrightarrow>
            process_url env urlStr (w, tr) =
              (\<lparr>url = urlStr, success = False, slug = None,
                error = Some ''Fallback media file too large''\<rparr>,
               snd (rm env tempDir w7),
               tr @ [EvMkdir tempDir,
                     EvExecFile ''gallery-dl'' [JStr ''--directory'', JStr tempDir, urlStr],
                     EvFetch urlStr ''Mozilla/5.0 (compatible; GifSelector/1.0; +http://localhost)'',
                     EvReadBody,
                     EvFetch (JStr mediaUrl) ''GifSelector/1.0'',
                     EvReadBody,
                     EvRm tempDir]))"
proof (intro conjI impI)
  let ?s0 = "\<lparr>world = w2, trace = tr @ [EvMkdir tempDir],
      result = \<lparr>url = urlStr, success = False, slug = None, error = None\<rparr>\<rparr>"
  let ?staged = "bind_io (acquire env urlStr tempDir) (\<lambda>v. process_downloaded env tempDir)"
  have found: "truthy (Some found)"
    using assms(11) by (simp add: truthy_def)
  {
    assume h: "headers mediaResp ''content-length'' = Some declared \<and> declared \<noteq> [] \<and>
          Number env declared = Num v \<and> 15728640 < v"
    have "?staged ?s0 =
        (Inl ''Fallback media file too large'',
         ?s0\<lparr>world := w6,
           trace := tr @ [EvMkdir tempDir,
                   EvExecFile ''gallery-dl'' [JStr ''--directory'', JStr tempDir, urlStr],
                   EvFetch urlStr ''Mozilla/5.0 (compatible; GifSelector/1.0; +http://localhost)'',
                   EvReadBody,
                   EvFetch (JStr mediaUrl) ''GifSelector/1.0'']\<rparr>)"
      using assms(6-14) h found
      by (simp add: acquire_def fallback_def bind_io_def try_catch_def call_def throw_io_def
          Let_def truthy_def [of "Some declared"] MAX_DOWNLOAD_SIZE_def)
    from process_url_workspace [OF assms(1-5) this]
    show "process_url env urlStr (w, tr) =
            (\<lparr>url = urlStr, success = False, slug = None,
              error = Some ''Fallback media file too large''\<rparr>,
             snd (rm env tempDir w6),
             tr @ [EvMkdir tempDir,
                   EvExecFile ''gallery-dl'' [JStr ''--directory'', JStr tempDir, urlStr],
                   EvFetch urlStr ''Mozilla/5.0 (compatible; GifSelector/1.0; +http://localhost)'',
                   EvReadBody,
                   EvFetch (JStr mediaUrl) ''GifSelector/1.0'',
                   EvRm tempDir])"
      by simp
  }
  {
    assume h: "\<not> (truthy (headers mediaResp ''content-length'') \<and>
               js_gt (Number env (the (headers mediaResp ''content-length''))) MAX_DOWNLOAD_SIZE) \<and>
            resp_arrayBuffer env mediaResp w6 = (Inr buffer, w7) \<and> 15728640 < length buffer"
    have "?staged ?s0 =
        (Inl ''Fallback media file too large'',
         ?s0\<lparr>world := w7,
           trace := tr @ [EvMkdir tempDir,
                   EvExecFile ''gallery-dl'' [JStr ''--directory'', JStr tempDir, urlStr],
                   EvFetch urlStr ''Mozilla/5.0 (compatible; GifSelector/1.0; +http://localhost)'',
                   EvReadBody,
                   EvFetch (JStr mediaUrl) ''GifSelector/1.0'',
                   EvReadBody]\<rparr>)"
      using assms(6-14) h found
      by (simp add: acquire_def fallback_def bind_io_def try_catch_def call_def throw_io_def
          Let_def MAX_DOWNLOAD_SIZE_def)
    from process_url_workspace [OF assms(1-5) this]
    show "process_url env urlStr (w, tr) =
              (\<lparr>url = urlStr, success = False, slug = None,
                error = Some ''Fallback media file too large''\<rparr>,
               snd (rm env tempDir w7),
               tr @ [EvMkdir tempDir,
                     EvExecFile ''gallery-dl'' [JStr ''--directory'', JStr tempDir, urlStr],
                     EvFetch urlStr ''Mozilla/5.0 (compatible; GifSelector/1.0; +http://localhost)'',
                     EvReadBody,
                     EvFetch (JStr mediaUrl) ''GifSelector/1.0'',
                     EvReadBody,
                     EvRm tempDir])"
      by simp
  }
qed

theorem oversized_fallback_media_rejected_witness:
  "execFile declared_big_env ''gallery-dl''
     [JStr ''--directory'', JStr ''/tmp/gifselector-import-V1StGXR8_Z5jdHi6B-myT'',
      JStr ''https://tenor.com/view/cat''] 0 = (Inl ''spawn gallery-dl ENOENT'', 0)
   \<and> headers (demo_response (Some ''15728641'')) ''content-length'' = Some ''15728641''
   \<and> Number declared_big_env ''15728641'' = Num 15728641
   \<and> process_url declared_big_env (JStr ''https://tenor.com/view/cat'') (0, []) =
       (\<lparr>url = JStr ''https://tenor.com/view/cat'', success = False, slug = None,
         error = Some ''Fallback media file too large''\<rparr>,
        0,
        [EvMkdir ''/tmp/gifselector-import-V1StGXR8_Z5jdHi6B-myT'',
         EvExecFile ''gallery-dl''
           [JStr ''--directory'', JStr ''/tmp/gifselector-import-V1StGXR8_Z5jdHi6B-myT'',
            JStr ''https://tenor.com/view/cat''],
         EvFetch (JStr ''https://tenor.com/view/cat'')
           ''Mozilla/5.0 (compatible; GifSelector/1.0; +http://localhost)'',
         EvReadBody,
         EvFetch (JStr ''https://media.tenor.com/m/cat.gif'') ''GifSelector/1.0'',
         EvRm ''/tmp/gifselector-import-V1StGXR8_Z5jdHi6B-myT''])
   \<and> headers (demo_response None) ''content-length'' = None
   \<and> resp_arrayBuffer actual_big_env (demo_response None) 0 = (Inr big_buffer, 0)
   \<and> 15728640 < length big_buffer
   \<and> process_url actual_big_env (JStr ''https://tenor.com/view/cat'') (0, []) =
       (\<lparr>url = JStr ''https://tenor.com/view/cat'', success = False, slug = None,
         error = Some ''Fallback media file too large''\<rparr>,
        0,
        [EvMkdir ''/tmp/gifselector-import-V1StGXR8_Z5jdHi6B-myT'',
         EvExecFile ''gallery-dl''
           [JStr ''--directory'', JStr ''/tmp/gifselector-import-V1StGXR8_Z5jdHi6B-myT'',
            JStr ''https://tenor.com/view/cat''],
         EvFetch (JStr ''https://tenor.com/view/cat'')
           ''Mozilla/5.0 (compatible; GifSelector/1.0; +http://localhost)'',
         EvReadBody,
         EvFetch (JStr ''https://media.tenor.com/m/cat.gif'') ''GifSelector/1.0'',
         EvReadBody,
         EvRm ''/tmp/gifselector-import-V1StGXR8_Z5jdHi6B-myT''])"
proof -
  let ?u = "JStr ''https://tenor.com/view/cat''"
  let ?d = "''/tmp/gifselector-import-V1StGXR8_Z5jdHi6B-myT''"
  let ?agent = "''Mozilla/5.0 (compatible; GifSelector/1.0; +http://localhost)''"
  let ?page = "''https://media.tenor.com/m/cat.gif''"
  let ?D = declared_big_env
  let ?A = actual_big_env
  let ?r = "demo_response (Some ''15728641'')"
  let ?n = "demo_response None"
  note defs = declared_big_env_def actual_big_env_def no_downloader_env_def demo_defs
  have d1: "url_hostname ?D ?u = Some ''tenor.com''"
    and d2: "isAllowed (validDomains ?D) ''tenor.com''"
    and d3: "nanoid ?D None 0 = (''V1StGXR8_Z5jdHi6B-myT'', 0)"
    and d4: "?d = path_join ?D (tmpdir ?D) (''gifselector-import-'' @ ''V1StGXR8_Z5jdHi6B-myT'')"
    and d5: "mkdir ?D ?d 0 = (Inr (), 0)"
    and d6: "execFile ?D ''gallery-dl'' [JStr ''--directory'', JStr ?d, ?u] 0 =
               (Inl ''spawn gallery-dl ENOENT'', 0)"
    and d7: "fetch ?D ?u ?agent 0 = (Inr ?r, 0)"
    and d8: "ok ?r"
    and d9: "resp_text ?D ?r 0 = (Inr ?page, 0)"
    and d10: "js_or (extractMeta ?D ?page ''og:video'')
           (js_or (extractMeta ?D ?page ''og:video:url'')
             (js_or (extractMeta ?D ?page ''og:image'')
               (extractMeta ?D ?page ''twitter:image''))) = Some ?page"
    and d11: "?page \<noteq> []"
    and d12: "?page = replace_amp ?page"
    and d13: "fetch ?D (JStr ?page) ''GifSelector/1.0'' 0 = (Inr ?r, 0)"
    and d15: "headers ?r ''content-length'' = Some ''15728641''"
    and d16: "''15728641'' \<noteq> []"
    and d17: "Number ?D ''15728641'' = Num 15728641"
    and d18: "(15728640 :: real) < 15728641"
    and d19: "snd (rm ?D ?d 0) = 0"
    by (simp_all add: defs isAllowed_def js_or_def extractMeta_def truthy_def)
  have a1: "url_hostname ?A ?u = Some ''tenor.com''"
    and a2: "isAllowed (validDomains ?A) ''tenor.com''"
    and a3: "nanoid ?A None 0 = (''V1StGXR8_Z5jdHi6B-myT'', 0)"
    and a4: "?d = path_join ?A (tmpdir ?A) (''gifselector-import-'' @ ''V1StGXR8_Z5jdHi6B-myT'')"
    and a5: "mkdir ?A ?d 0 = (Inr (), 0)"
    and a6: "execFile ?A ''gallery-dl'' [JStr ''--directory'', JStr ?d, ?u] 0 =
               (Inl ''spawn gallery-dl ENOENT'', 0)"
    and a7: "fetch ?A ?u ?agent 0 = (Inr ?n, 0)"
    and a8: "ok ?n"
    and a9: "resp_text ?A ?n 0 = (Inr ?page, 0)"
    and a10: "js_or (extractMeta ?A ?page ''og:video'')
           (js_or (extractMeta ?A ?page ''og:video:url'')
             (js_or (extractMeta ?A ?page ''og:image'')
               (extractMeta ?A ?page ''twitter:image''))) = Some ?page"
    and a13: "fetch ?A (JStr ?page) ''GifSelector/1.0'' 0 = (Inr ?n, 0)"
    and a15: "headers ?n ''content-length'' = None"
    and a16: "resp_arrayBuffer ?A ?n 0 = (Inr big_buffer, 0)"
    and a19: "snd (rm ?A ?d 0) = 0"
    by (simp_all add: defs isAllowed_def js_or_def extractMeta_def truthy_def)
  have a17: "15728640 < length big_buffer"
    by (simp add: length_big_buffer)
  from a15 have a18: "\<not> (truthy (headers ?n ''content-length'') \<and>
      js_gt (Number ?A (the (headers ?n ''content-length''))) MAX_DOWNLOAD_SIZE)"
    by (simp add: truthy_def)
  note t1 = oversized_fallback_media_rejected [OF d1 d2 d3 d4 d5 d6 d7 d8 d9 d10 d11 d12 d13 d8,
      where declared = "''15728641''" and v = 15728641 and tr = "[]", THEN conjunct1, THEN mp]
  note t2 = oversized_fallback_media_rejected [OF a1 a2 a3 a4 a5 a6 a7 a8 a9 a10 d11 d12 a13 a8,
      where buffer = big_buffer and ?w7.0 = 0 and tr = "[]", THEN conjunct2, THEN mp]
  from t1 d15 d16 d17 d18 d19 have r1:
    "process_url ?D ?u (0, []) =
       (\<lparr>url = ?u, success = False, slug = None, error = Some ''Fallback media file too large''\<rparr>,
        0,
        [EvMkdir ?d, EvExecFile ''gallery-dl'' [JStr ''--directory'', JStr ?d, ?u],
         EvFetch ?u ?agent, EvReadBody, EvFetch (JStr ?page) ''GifSelector/1.0'', EvRm ?d])"
    by simp
  from t2 a16 a17 a18 a19 have r2:
    "process_url ?A ?u (0, []) =
       (\<lparr>url = ?u, success = False, slug = None, error = Some ''Fallback media file too large''\<rparr>,
        0,
        [EvMkdir ?d, EvExecFile ''gallery-dl'' [JStr ''--directory'', JStr ?d, ?u],
         EvFetch ?u ?agent, EvReadBody, EvFetch (JStr ?page) ''GifSelector/1.0'', EvReadBody,
         EvRm ?d])"
    by simp
  from d6 d15 d17 r1 a15 a16 a17 r2 show ?thesis by (intro conjI)
qed

subsection \<open>Files no strategy converts\<close>

lemma run_tool_quiet:
  assumes "run_tool env tool args out s = (r, s')"
  shows "result s' = result s \<and> (\<exists>evs. trace s' = trace s @ evs \<and> stored_slugs evs = [])"
proof -
  from emitsD [OF emits_run_tool assms] obtain evs where
    "trace s' = trace s @ evs" "list_all is_tool evs" by blast
  moreover from this(2) have "stored_slugs evs = []"
    by (intro no_slugs) (auto simp: list_all_iff is_tool_def)
  ultimately show ?thesis using keepsD [OF keeps_run_tool assms] by blast
qed

lemma video_dropped:
  assumes "toLowerCase env (path_extname env filePath) = ''.mp4''"
    and "videoWebp = replace_ext filePath ''.mp4'' ''.webp''"
    and "videoGif = replace_ext filePath ''.mp4'' ''.gif''"
    and "run_tool env ''ffmpeg'' (ffmpeg_webp_args filePath videoWebp) videoWebp s = (Inl e1, s1)"
    and "run_tool env ''magick'' (magick_args filePath videoWebp) videoWebp s1 = (Inl e2, s2)"
    and "run_tool env ''convert'' (magick_args filePath videoWebp) videoWebp s2 = (Inl e3, s3)"
    and "run_tool env ''ffmpeg'' [''-y'', ''-i'', filePath, videoGif] videoGif s3 = (Inl e4, s4)"
  shows "process_file env filePath s = (Inr False, s4)"
    and "result s4 = result s"
    and "\<exists>evs. trace s4 = trace s @ evs \<and> stored_slugs evs = []"
proof -
  show "process_file env filePath s = (Inr False, s4)"
    using assms
    by (simp add: process_file_def convert_def Let_def bind_io_def try_catch_def return_io_def
        persist_def)
  from run_tool_quiet [OF assms(4)] run_tool_quiet [OF assms(5)] run_tool_quiet [OF assms(6)]
    run_tool_quiet [OF assms(7)]
  show "result s4 = result s" "\<exists>evs. trace s4 = trace s @ evs \<and> stored_slugs evs = []"
    by auto
qed

lemma skipped_files:
  assumes "\<forall>f\<in>set skipped. toLowerCase env (path_extname env f) \<notin> set ALLOWED_EXTENSIONS \<and>
                          toLowerCase env (path_extname env f) \<noteq> ''.mp4''"
  shows "process_files env (skipped @ files) False s = process_files env files False s"
  using assms
  by (induction skipped) (simp_all add: process_file_def bind_io_def return_io_def)

lemma only_candidate_fails:
  assumes "url_hostname env urlStr = Some hostname"
    and "isAllowed (validDomains env) hostname"
    and "nanoid env None w = (ident, w1)"
    and "tempDir = path_join env (tmpdir env) (''gifselector-import-'' @ ident)"
    and "mkdir env tempDir w1 = (Inr (), w2)"
    and "acquire env urlStr tempDir
           \<lparr>world = w2, trace = tr @ [EvMkdir tempDir],
            result = \<lparr>url = urlStr, success = False, slug = None, error = None\<rparr>\<rparr> = (Inr (), s)"
    and "findFiles (path_join env) tempDir (readdir_tree env tempDir (world s)) =
           Inr (before @ filePath # after)"
    and "\<forall>f\<in>set (before @ after).
           toLowerCase env (path_extname env f) \<notin> set ALLOWED_EXTENSIONS \<and>
           toLowerCase env (path_extname env f) \<noteq> ''.mp4''"
    and "process_file env filePath s = (Inr False, s4)"
    and "result s4 = result s"
  shows "process_url env urlStr (w, tr) =
           (\<lparr>url = urlStr, success = False, slug = None,
             error = Some ''Downloaded files were not valid GIFs/WebPs or were too large.''\<rparr>,
            snd (rm env tempDir (world s4)), trace s4 @ [EvRm tempDir])"
proof -
  have k: "result s = \<lparr>url = urlStr, success = False, slug = None, error = None\<rparr>"
    using keepsD [OF keeps_acquire assms(6)] by simp
  from assms(8) have "process_files env (before @ filePath # after) False s =
      process_files env (filePath # after) False s"
    by (intro skipped_files) simp
  also have "\<dots> = process_files env (after @ []) False s4"
    using assms(9) by (simp add: bind_io_def)
  also from assms(8) have "\<dots> = process_files env [] False s4"
    by (intro skipped_files) simp
  finally have loop: "process_files env (before @ filePath # after) False s = (Inr False, s4)"
    by (simp add: return_io_def)
  have "bind_io (acquire env urlStr tempDir) (\<lambda>v. process_downloaded env tempDir)
           \<lparr>world = w2, trace = tr @ [EvMkdir tempDir],
            result = \<lparr>url = urlStr, success = False, slug = None, error = None\<rparr>\<rparr> =
        (Inl ''Downloaded files were not valid GIFs/WebPs or were too large.'', s4)"
    using assms(6,7) loop
    by (simp add: bind_io_def process_downloaded_def list_files_def return_io_def throw_io_def)
  from process_url_workspace [OF assms(1-5) this] assms(10) k show ?thesis by simp
qed

lemma gif_kept:
  assumes "toLowerCase env (path_extname env filePath) = ''.gif''"
    and "imageWebp = replace_ext filePath ''.gif'' ''.webp''"
    and "run_tool env ''magick'' (magick_args filePath imageWebp) imageWebp s = (Inl e1, s1)"
    and "run_tool env ''convert'' (magick_args filePath imageWebp) imageWebp s1 = (Inl e2, s2)"
    and "stat env filePath (world s2) = (Inr bytes, w3)"
    and "bytes \<le> 15728640"
    and "Date_now env w3 = (now, w4)"
    and "nanoid env (Some 6) w4 = (suffix, w5)"
    and "uniqueName = string_of_nat now @ ''-'' @ suffix @ ''.gif''"
    and "savePath = path_join env (UPLOAD_DIR env) uniqueName"
    and "copyFile env filePath savePath w5 = (Inr (), w6)"
    and "nanoid env (Some 10) w6 = (new_slug, w7)"
    and "kept = \<lparr>asset_slug = new_slug, filename = uniqueName,
                  originalName = path_basename env filePath,
                  mimeType = Some ''image/gif'', sizeBytes = bytes\<rparr>"
    and "addGif env kept w7 = (Inr (), w8)"
  shows "process_file env filePath s =
           (Inr True,
            s2\<lparr>world := w8,
               trace := trace s2 @ [EvStat filePath, EvCopyFile filePath savePath, EvAddGif kept],
               result := (result s2)\<lparr>success := True, slug := Some new_slug\<rparr>\<rparr>)"
  using assms
  by (simp add: process_file_def convert_def Let_def bind_io_def try_catch_def return_io_def
      persist_def call_def sample_def set_success_def ALLOWED_EXTENSIONS_def
      EXTENSION_MIME_MAP_def MAX_DOWNLOAD_SIZE_def)

lemma stored_kinds:
  assumes "import_handler env req_body w = (resp, w', tr)" and "EvAddGif a \<in> set tr"
  shows "(mimeType a = Some ''image/webp'' \<and> (\<exists>stem. filename a = stem @ ''.webp'')) \<or>
         (mimeType a = Some ''image/gif'' \<and> (\<exists>stem. filename a = stem @ ''.gif''))"
proof -
  from handler_trace_storable [OF assms(1)] assms(2) have "storable (EvAddGif a)"
    by (auto simp: list_all_iff)
  then show ?thesis by (simp add: storable_def endsWith_iff)
qed

text \<open>
  C5. A strategy fails when its tool is rejected or its output is missing afterwards.
  Where all four strategies fail for a file of extension \<^verbatim>\<open>.mp4\<close>, the file is passed
  over without a \<^verbatim>\<open>stat\<close>, a copy or an asset, and where it is the only candidate of the
  workspace (every file listed before it or after it has an extension that is neither an
  allowed one nor \<^verbatim>\<open>.mp4\<close>) the URL's entry is a failure with the error "Downloaded files
  were not valid GIFs/WebPs or were too large.". Where both strategies fail for a file of extension
  \<^verbatim>\<open>.gif\<close> and the file is within the cap, the original file is the one copied, and it
  is recorded under a name ending in \<^verbatim>\<open>.gif\<close> with the type \<^verbatim>\<open>image/gif\<close> (the calls
  of \<^verbatim>\<open>stat\<close>, \<^verbatim>\<open>copyFile\<close> and \<^verbatim>\<open>addGif\<close> succeeding). In every run of the
  handler, every asset recorded is a WebP or a GIF by type and by name: never a video.
\<close>

theorem unconverted_media:
  "(toLowerCase env (path_extname env filePath) = ''.mp4'' \<and>
    videoWebp = replace_ext filePath ''.mp4'' ''.webp'' \<and>
    videoGif = replace_ext filePath ''.mp4'' ''.gif'' \<and>
    run_tool env ''ffmpeg'' (ffmpeg_webp_args filePath videoWebp) videoWebp s = (Inl e1, s1) \<and>
    run_tool env ''magick'' (magick_args filePath videoWebp) videoWebp s1 = (Inl e2, s2) \<and>
    run_tool env ''convert'' (magick_args filePath videoWebp) videoWebp s2 = (Inl e3, s3) \<and>
    run_tool env ''ffmpeg'' [''-y'', ''-i'', filePath, videoGif] videoGif s3 = (Inl e4, s4) \<longrightarrow>
      process_file env filePath s = (Inr False, s4) \<and>
      (\<exists>evs. trace s4 = trace s @ evs \<and> stored_slugs evs = []) \<and>
      (url_hostname env urlStr = Some hostname \<and>
       isAllowed (validDomains env) hostname \<and>
       nanoid env None w = (ident, w1) \<and>
       tempDir = path_join env (tmpdir env) (''gifselector-import-'' @ ident) \<and>
       mkdir env tempDir w1 = (Inr (), w2) \<and>
       acquire env urlStr tempDir
         \<lparr>world = w2, trace = tr @ [EvMkdir tempDir],
          result = \<lparr>url = urlStr, success = False, slug = None, error = None\<rparr>\<rparr> = (Inr (), s) \<and>
       findFiles (path_join env) tempDir (readdir_tree env tempDir (world s)) =
         Inr (before @ filePath # after) \<and>
       (\<forall>f\<in>set (before @ after).
          toLowerCase env (path_extname env f) \<notin> set ALLOWED_EXTENSIONS \<and>
          toLowerCase env (path_extname env f) \<noteq> ''.mp4'') \<longrightarrow>
         process_url env urlStr (w, tr) =
           (\<lparr>url = urlStr, success = False, slug = None,
             error = Some ''Downloaded files were not valid GIFs/WebPs or were too large.''\<rparr>,
            snd (rm env tempDir (world s4)), trace s4 @ [EvRm tempDir])))
   \<and> (toLowerCase env (path_extname env filePath) = ''.gif'' \<and>
       imageWebp = replace_ext filePath ''.gif'' ''.webp'' \<and>
       run_tool env ''magick'' (magick_args filePath imageWebp) imageWebp s = (Inl e1, s1) \<and>
       run_tool env ''convert'' (magick_args filePath imageWebp) imageWebp s1 = (Inl e2, s2) \<and>
       stat env filePath (world s2) = (Inr bytes, w3) \<and>
       bytes \<le> 15728640 \<and>
       Date_now env w3 = (now, w4) \<and>
       nanoid env (Some 6) w4 = (suffix, w5) \<and>
       uniqueName = string_of_nat now @ ''-'' @ suffix @ ''.gif'' \<and>
       savePath = path_join env (UPLOAD_DIR env) uniqueName \<and>
       copyFile env filePath savePath w5 = (Inr (), w6) \<and>
       nanoid env (Some 10) w6 = (new_slug, w7) \<and>
       kept = \<lparr>asset_slug = new_slug, filename = uniqueName,
                originalName = path_basename env filePath,
                mimeType = Some ''image/gif'', sizeBytes = bytes\<rparr> \<and>
       addGif env kept w7 = (Inr (), w8) \<longrightarrow>
         process_file env filePath s =
           (Inr True,
            s2\<lparr>world := w8,
               trace := trace s2 @ [EvStat filePath, EvCopyFile filePath savePath, EvAddGif kept],
               result := (result s2)\<lparr>success := True, slug := Some new_slug\<rparr>\<rparr>))
   \<and> (import_handler env req_body w = (resp, w', handler_trace) \<and>
       EvAddGif a \<in> set handler_trace \<longrightarrow>
         (mimeType a = Some ''image/webp'' \<and> (\<exists>stem. filename a = stem @ ''.webp'')) \<or>
         (mimeType a = Some ''image/gif'' \<and> (\<exists>stem. filename a = stem @ ''.gif'')))"
proof (intro conjI impI; (elim conjE)?)
  assume h: "toLowerCase env (path_extname env filePath) = ''.mp4''"
    "videoWebp = replace_ext filePath ''.mp4'' ''.webp''"
    "videoGif = replace_ext filePath ''.mp4'' ''.gif''"
    "run_tool env ''ffmpeg'' (ffmpeg_webp_args filePath videoWebp) videoWebp s = (Inl e1, s1)"
    "run_tool env ''magick'' (magick_args filePath videoWebp) videoWebp s1 = (Inl e2, s2)"
    "run_tool env ''convert'' (magick_args filePath videoWebp) videoWebp s2 = (Inl e3, s3)"
    "run_tool env ''ffmpeg'' [''-y'', ''-i'', filePath, videoGif] videoGif s3 = (Inl e4, s4)"
  note d = video_dropped [OF h]
  show "process_file env filePath s = (Inr False, s4)" by (rule d(1))
  show "\<exists>evs. trace s4 = trace s @ evs \<and> stored_slugs evs = []" by (rule d(3))
  assume u: "url_hostname env urlStr = Some hostname"
    "isAllowed (validDomains env) hostname"
    "nanoid env None w = (ident, w1)"
    "tempDir = path_join env (tmpdir env) (''gifselector-import-'' @ ident)"
    "mkdir env tempDir w1 = (Inr (), w2)"
    "acquire env urlStr tempDir
         \<lparr>world = w2, trace = tr @ [EvMkdir tempDir],
          result = \<lparr>url = urlStr, success = False, slug = None, error = None\<rparr>\<rparr> = (Inr (), s)"
    "findFiles (path_join env) tempDir (readdir_tree env tempDir (world s)) =
         Inr (before @ filePath # after)"
    "\<forall>f\<in>set (before @ after).
          toLowerCase env (path_extname env f) \<notin> set ALLOWED_EXTENSIONS \<and>
          toLowerCase env (path_extname env f) \<noteq> ''.mp4''"
  show "process_url env urlStr (w, tr) =
           (\<lparr>url = urlStr, success = False, slug = None,
             error = Some ''Downloaded files were not valid GIFs/WebPs or were too large.''\<rparr>,
            snd (rm env tempDir (world s4)), trace s4 @ [EvRm tempDir])"
    by (rule only_candidate_fails [OF u d(1,2)])
next
  assume h: "toLowerCase env (path_extname env filePath) = ''.gif''"
    "imageWebp = replace_ext filePath ''.gif'' ''.webp''"
    "run_tool env ''magick'' (magick_args filePath imageWebp) imageWebp s = (Inl e1, s1)"
    "run_tool env ''convert'' (magick_args filePath imageWebp) imageWebp s1 = (Inl e2, s2)"
    "stat env filePath (world s2) = (Inr bytes, w3)"
    "bytes \<le> 15728640"
    "Date_now env w3 = (now, w4)"
    "nanoid env (Some 6) w4 = (suffix, w5)"
    "uniqueName = string_of_nat now @ ''-'' @ suffix @ ''.gif''"
    "savePath = path_join env (UPLOAD_DIR env) uniqueName"
    "copyFile env filePath savePath w5 = (Inr (), w6)"
    "nanoid env (Some 10) w6 = (new_slug, w7)"
    "kept = \<lparr>asset_slug = new_slug, filename = uniqueName,
                originalName = path_basename env filePath,
                mimeType = Some ''image/gif'', sizeBytes = bytes\<rparr>"
    "addGif env kept w7 = (Inr (), w8)"
  show "process_file env filePath s =
           (Inr True,
            s2\<lparr>world := w8,
               trace := trace s2 @ [EvStat filePath, EvCopyFile filePath savePath, EvAddGif kept],
               result := (result s2)\<lparr>success := True, slug := Some new_slug\<rparr>\<rparr>)"
    by (rule gif_kept [OF h])
next
  assume "import_handler env req_body w = (resp, w', handler_trace)"
    "EvAddGif a \<in> set handler_trace"
  then show "(mimeType a = Some ''image/webp'' \<and> (\<exists>stem. filename a = stem @ ''.webp'')) \<or>
         (mimeType a = Some ''image/gif'' \<and> (\<exists>stem. filename a = stem @ ''.gif''))"
    by (rule stored_kinds)
qed

theorem unconverted_media_witness:
  "(\<exists>s4. findFiles (path_join video_among_others_env)
            ''/tmp/gifselector-import-V1StGXR8_Z5jdHi6B-myT''
            (readdir_tree video_among_others_env
               ''/tmp/gifselector-import-V1StGXR8_Z5jdHi6B-myT'' (world acquired_state)) =
            Inr [''/tmp/gifselector-import-V1StGXR8_Z5jdHi6B-myT/notes.txt'',
                 ''/tmp/gifselector-import-V1StGXR8_Z5jdHi6B-myT/clip.mp4'',
                 ''/tmp/gifselector-import-V1StGXR8_Z5jdHi6B-myT/cover.jpg''] \<and>
          process_file video_among_others_env
            ''/tmp/gifselector-import-V1StGXR8_Z5jdHi6B-myT/clip.mp4'' acquired_state =
            (Inr False, s4) \<and>
          (\<exists>evs. trace s4 = trace acquired_state @ evs \<and> stored_slugs evs = []) \<and>
          process_url video_among_others_env (JStr ''https://tenor.com/view/cat'') (0, []) =
            (\<lparr>url = JStr ''https://tenor.com/view/cat'', success = False, slug = None,
              error = Some ''Downloaded files were not valid GIFs/WebPs or were too large.''\<rparr>,
             0, trace s4 @ [EvRm ''/tmp/gifselector-import-V1StGXR8_Z5jdHi6B-myT'']))
   \<and> (\<exists>s2. trace s2 =
               [EvExecFile ''magick''
                  (map JStr (magick_args ''/w/cat.gif'' ''/w/cat.webp'')),
                EvExecFile ''convert''
                  (map JStr (magick_args ''/w/cat.gif'' ''/w/cat.webp''))] \<and>
             process_file demo_env ''/w/cat.gif'' demo_state =
               (Inr True,
                s2\<lparr>world := 1,
                   trace := trace s2 @
                     [EvStat ''/w/cat.gif'',
                      EvCopyFile ''/w/cat.gif'' ''/data/uploads/1700-V1StGX.gif'',
                      EvAddGif \<lparr>asset_slug = ''V1StGXR8_Z'', filename = ''1700-V1StGX.gif'',
                                originalName = ''cat.gif'', mimeType = Some ''image/gif'',
                                sizeBytes = 2048\<rparr>],
                   result := (result s2)\<lparr>success := True, slug := Some ''V1StGXR8_Z''\<rparr>\<rparr>))
   \<and> (\<exists>resp w' tr a. import_handler demo_env two_urls_body 0 = (resp, w', tr) \<and>
          EvAddGif a \<in> set tr \<and> mimeType a = Some ''image/gif'' \<and>
          (\<exists>stem. filename a = stem @ ''.gif''))"
proof -
  let ?u = "JStr ''https://tenor.com/view/cat''"
  let ?d = "''/tmp/gifselector-import-V1StGXR8_Z5jdHi6B-myT''"
  let ?f = "''/tmp/gifselector-import-V1StGXR8_Z5jdHi6B-myT/clip.mp4''"
  let ?n = "''/tmp/gifselector-import-V1StGXR8_Z5jdHi6B-myT/notes.txt''"
  let ?c = "''/tmp/gifselector-import-V1StGXR8_Z5jdHi6B-myT/cover.jpg''"
  let ?vw = "''/tmp/gifselector-import-V1StGXR8_Z5jdHi6B-myT/clip.webp''"
  let ?vg = "''/tmp/gifselector-import-V1StGXR8_Z5jdHi6B-myT/clip.gif''"
  let ?V = video_among_others_env
  let ?t1 = "EvExecFile ''ffmpeg'' (map JStr (ffmpeg_webp_args ?f ?vw))"
  let ?t2 = "EvExecFile ''magick'' (map JStr (magick_args ?f ?vw))"
  let ?t3 = "EvExecFile ''convert'' (map JStr (magick_args ?f ?vw))"
  let ?t4 = "EvExecFile ''ffmpeg'' (map JStr [''-y'', ''-i'', ?f, ?vg])"
  let ?s1 = "acquired_state\<lparr>trace := trace acquired_state @ [?t1]\<rparr>"
  let ?s2 = "acquired_state\<lparr>trace := trace acquired_state @ [?t1, ?t2]\<rparr>"
  let ?s3 = "acquired_state\<lparr>trace := trace acquired_state @ [?t1, ?t2, ?t3]\<rparr>"
  let ?s4 = "acquired_state\<lparr>trace := trace acquired_state @ [?t1, ?t2, ?t3, ?t4]\<rparr>"
  note vdefs = video_among_others_env_def demo_defs acquired_state_def
  have v1: "toLowerCase ?V (path_extname ?V ?f) = ''.mp4''"
    and v2: "?vw = replace_ext ?f ''.mp4'' ''.webp''"
    and v3: "?vg = replace_ext ?f ''.mp4'' ''.gif''"
    by (simp_all add: vdefs ascii_lower_def replace_ext_def regex_char_match_def)
  have v4: "run_tool ?V ''ffmpeg'' (ffmpeg_webp_args ?f ?vw) ?vw acquired_state =
              (Inl ''spawn ffmpeg ENOENT'', ?s1)"
    and v5: "run_tool ?V ''magick'' (magick_args ?f ?vw) ?vw ?s1 = (Inl ''spawn magick ENOENT'', ?s2)"
    and v6: "run_tool ?V ''convert'' (magick_args ?f ?vw) ?vw ?s2 = (Inl ''spawn convert ENOENT'', ?s3)"
    and v7: "run_tool ?V ''ffmpeg'' [''-y'', ''-i'', ?f, ?vg] ?vg ?s3 = (Inl ''spawn ffmpeg ENOENT'', ?s4)"
    by (simp_all add: vdefs run_tool_def bind_io_def call_def)
  have u1: "url_hostname ?V ?u = Some ''tenor.com''"
    and u2: "isAllowed (validDomains ?V) ''tenor.com''"
    and u3: "nanoid ?V None 0 = (''V1StGXR8_Z5jdHi6B-myT'', 0)"
    and u4: "?d = path_join ?V (tmpdir ?V) (''gifselector-import-'' @ ''V1StGXR8_Z5jdHi6B-myT'')"
    and u5: "mkdir ?V ?d 0 = (Inr (), 0)"
    and u6: "acquire ?V ?u ?d
         \<lparr>world = 0, trace = [] @ [EvMkdir ?d],
          result = \<lparr>url = ?u, success = False, slug = None, error = None\<rparr>\<rparr> =
         (Inr (), acquired_state)"
    and u7: "findFiles (path_join ?V) ?d (readdir_tree ?V ?d (world acquired_state)) =
               Inr ([?n] @ ?f # [?c])"
    and u9: "\<forall>f\<in>set ([?n] @ [?c]).
               toLowerCase ?V (path_extname ?V f) \<notin> set ALLOWED_EXTENSIONS \<and>
               toLowerCase ?V (path_extname ?V f) \<noteq> ''.mp4''"
    and u8: "snd (rm ?V ?d (world ?s4)) = 0"
    by (simp_all add: vdefs isAllowed_def acquire_def try_catch_def call_def ascii_lower_def
        ALLOWED_EXTENSIONS_def)
  from unconverted_media [where env = ?V and filePath = ?f and videoWebp = ?vw and videoGif = ?vg
      and s = acquired_state and ?s1.0 = ?s1 and ?s2.0 = ?s2 and ?s3.0 = ?s3 and ?s4.0 = ?s4
      and urlStr = ?u and hostname = "''tenor.com''" and w = 0
      and ident = "''V1StGXR8_Z5jdHi6B-myT''" and ?w1.0 = 0 and tempDir = ?d and ?w2.0 = 0
      and tr = "[]" and before = "[?n]" and after = "[?c]", THEN conjunct1, THEN mp]
    v1 v2 v3 v4 v5 v6 v7 u1 u2 u3 u4 u5 u6 u7 u9
  have a: "process_file ?V ?f acquired_state = (Inr False, ?s4)"
    "\<exists>evs. trace ?s4 = trace acquired_state @ evs \<and> stored_slugs evs = []"
    "process_url ?V ?u (0, []) =
       (\<lparr>url = ?u, success = False, slug = None,
         error = Some ''Downloaded files were not valid GIFs/WebPs or were too large.''\<rparr>,
        snd (rm ?V ?d (world ?s4)), trace ?s4 @ [EvRm ?d])"
    by blast+
  from a u7 u8 have A: "\<exists>s4. findFiles (path_join ?V) ?d (readdir_tree ?V ?d (world acquired_state)) =
            Inr [?n, ?f, ?c] \<and>
          process_file ?V ?f acquired_state = (Inr False, s4) \<and>
          (\<exists>evs. trace s4 = trace acquired_state @ evs \<and> stored_slugs evs = []) \<and>
          process_url ?V ?u (0, []) =
            (\<lparr>url = ?u, success = False, slug = None,
              error = Some ''Downloaded files were not valid GIFs/WebPs or were too large.''\<rparr>,
             0, trace s4 @ [EvRm ?d])"
    by (intro exI [of _ ?s4]) simp
  let ?g = "''/w/cat.gif''"
  let ?gw = "''/w/cat.webp''"
  let ?g1 = "demo_state\<lparr>trace := [EvExecFile ''magick'' (map JStr (magick_args ?g ?gw))]\<rparr>"
  let ?g2 = "demo_state\<lparr>trace := [EvExecFile ''magick'' (map JStr (magick_args ?g ?gw)),
                                     EvExecFile ''convert'' (map JStr (magick_args ?g ?gw))]\<rparr>"
  let ?kept = "\<lparr>asset_slug = ''V1StGXR8_Z'', filename = ''1700-V1StGX.gif'',
                originalName = ''cat.gif'', mimeType = Some ''image/gif'', sizeBytes = 2048\<rparr>"
  note gdefs = demo_defs demo_state_def
  have g1: "toLowerCase demo_env (path_extname demo_env ?g) = ''.gif''"
    and g2: "?gw = replace_ext ?g ''.gif'' ''.webp''"
    by (simp_all add: gdefs ascii_lower_def replace_ext_def regex_char_match_def)
  have g3: "run_tool demo_env ''magick'' (magick_args ?g ?gw) ?gw demo_state =
              (Inl ''spawn magick ENOENT'', ?g1)"
    and g4: "run_tool demo_env ''convert'' (magick_args ?g ?gw) ?gw ?g1 =
              (Inl ''spawn convert ENOENT'', ?g2)"
    by (simp_all add: gdefs run_tool_def bind_io_def call_def)
  have g5: "stat demo_env ?g (world ?g2) = (Inr 2048, 0)"
    and g6: "(2048 :: nat) \<le> 15728640"
    and g7: "Date_now demo_env 0 = (1700, 1)"
    and g8: "nanoid demo_env (Some 6) 1 = (''V1StGX'', 1)"
    and g9: "''1700-V1StGX.gif'' = string_of_nat 1700 @ ''-'' @ ''V1StGX'' @ ''.gif''"
    and g10: "''/data/uploads/1700-V1StGX.gif'' =
                path_join demo_env (UPLOAD_DIR demo_env) ''1700-V1StGX.gif''"
    and g11: "copyFile demo_env ?g ''/data/uploads/1700-V1StGX.gif'' 1 = (Inr (), 1)"
    and g12: "nanoid demo_env (Some 10) 1 = (''V1StGXR8_Z'', 1)"
    and g13: "?kept = \<lparr>asset_slug = ''V1StGXR8_Z'', filename = ''1700-V1StGX.gif'',
                originalName = path_basename demo_env ?g,
                mimeType = Some ''image/gif'', sizeBytes = 2048\<rparr>"
    and g14: "addGif demo_env ?kept 1 = (Inr (), 1)"
    by (simp_all add: gdefs string_of_nat.simps digit_char_def)
  from unconverted_media [where env = demo_env and filePath = ?g and imageWebp = ?gw
      and s = demo_state and ?s1.0 = ?g1 and ?s2.0 = ?g2 and bytes = 2048 and ?w3.0 = 0
      and now = 1700 and ?w4.0 = 1 and suffix = "''V1StGX''" and ?w5.0 = 1
      and uniqueName = "''1700-V1StGX.gif''" and savePath = "''/data/uploads/1700-V1StGX.gif''"
      and ?w6.0 = 1 and new_slug = "''V1StGXR8_Z''" and ?w7.0 = 1 and kept = ?kept
      and ?w8.0 = 1, THEN conjunct2, THEN conjunct1, THEN mp]
    g1 g2 g3 g4 g5 g6 g7 g8 g9 g10 g11 g12 g13 g14
  have b: "process_file demo_env ?g demo_state =
           (Inr True,
            ?g2\<lparr>world := 1,
               trace := trace ?g2 @
                 [EvStat ?g, EvCopyFile ?g ''/data/uploads/1700-V1StGX.gif'', EvAddGif ?kept],
               result := (result ?g2)\<lparr>success := True, slug := Some ''V1StGXR8_Z''\<rparr>\<rparr>)"
    by blast
  have B: "\<exists>s2. trace s2 =
               [EvExecFile ''magick'' (map JStr (magick_args ?g ?gw)),
                EvExecFile ''convert'' (map JStr (magick_args ?g ?gw))] \<and>
             process_file demo_env ?g demo_state =
               (Inr True,
                s2\<lparr>world := 1,
                   trace := trace s2 @
                     [EvStat ?g, EvCopyFile ?g ''/data/uploads/1700-V1StGX.gif'', EvAddGif ?kept],
                   result := (result s2)\<lparr>success := True, slug := Some ''V1StGXR8_Z''\<rparr>\<rparr>)"
    by (rule exI [of _ ?g2]) (use b in simp)
  obtain resp w' tr where run: "import_handler demo_env two_urls_body 0 = (resp, w', tr)"
    by (cases "import_handler demo_env two_urls_body 0") auto
  with two_urls_run have m: "EvAddGif ?kept \<in> set tr" by auto
  from unconverted_media [where env = demo_env and req_body = two_urls_body and w = 0
      and resp = resp and w' = w' and handler_trace = tr and a = ?kept,
      THEN conjunct2, THEN conjunct2, THEN mp] run m
  have "\<exists>stem. filename ?kept = stem @ ''.gif''" by simp
  with run m have C: "\<exists>resp w' tr a. import_handler demo_env two_urls_body 0 = (resp, w', tr) \<and>
          EvAddGif a \<in> set tr \<and> mimeType a = Some ''image/gif'' \<and>
          (\<exists>stem. filename a = stem @ ''.gif'')"
    by (intro exI [of _ resp] exI [of _ w'] exI [of _ tr] exI [of _ ?kept]) simp
  from A B C show ?thesis by (intro conjI)
qed

subsection \<open>The shape of a result\<close>

lemma persists_later:
  assumes "persists env s1 s'" and "result s1 = result s" and "trace s1 = trace s @ pre"
    and "stored_slugs pre = []"
  shows "persists env s s'"
proof -
  from assms(1) obtain a evs where
    1: "trace s' = trace s1 @ evs" "persisted env a evs (world s')"
       "result s' = (result s1)\<lparr>success := True, slug := Some (asset_slug a)\<rparr>"
    unfolding persists_def by blast
  from 1(2) assms(4) have "persisted env a (pre @ evs) (world s')"
    unfolding persisted_def
    apply (elim exE conjE)
    subgoal for before src savePath ws w3 now w4 suffix w5 w6 w7
      apply (rule exI [of _ "pre @ before"])
      apply (rule exI [of _ src])
      apply (rule exI [of _ savePath])
      apply (rule exI [of _ ws])
      apply (rule exI [of _ w3])
      apply (rule exI [of _ now])
      apply (rule exI [of _ w4])
      apply (rule exI [of _ suffix])
      apply (rule exI [of _ w5])
      apply (rule exI [of _ w6])
      apply (rule exI [of _ w7])
      apply simp
      done
    done
  with 1 assms(2,3) show ?thesis unfolding persists_def by auto
qed

lemma persist_persists:
  assumes "persist env f x s = (Inr True, s')"
  shows "persists env s s'"
proof -
  obtain p e m where x: "x = (p, e, m)" by (cases x)
  from assms have e: "e \<noteq> ''.mp4''"
    by (auto simp: x persist_def return_io_def)
  obtain sr w3 where st: "stat env p (world s) = (sr, w3)" by (cases "stat env p (world s)")
  from assms e st obtain bytes where sr: "sr = Inr bytes" and cap: "\<not> MAX_DOWNLOAD_SIZE < bytes"
    by (cases sr) (auto simp: x persist_def bind_io_def call_def return_io_def split: if_splits)
  obtain now w4 where dn: "Date_now env w3 = (now, w4)" by (cases "Date_now env w3")
  obtain suffix w5 where n6: "nanoid env (Some 6) w4 = (suffix, w5)"
    by (cases "nanoid env (Some 6) w4")
  define uniqueName where "uniqueName = string_of_nat now @ ''-'' @ suffix @ e"
  define savePath where "savePath = path_join env (UPLOAD_DIR env) uniqueName"
  obtain cr w6 where cp: "copyFile env p savePath w5 = (cr, w6)"
    by (cases "copyFile env p savePath w5")
  obtain sl w7 where n10: "nanoid env (Some 10) w6 = (sl, w7)"
    by (cases "nanoid env (Some 10) w6")
  define a where "a = \<lparr>asset_slug = sl, filename = uniqueName,
      originalName = path_basename env f, mimeType = m, sizeBytes = bytes\<rparr>"
  obtain ar w8 where ag: "addGif env a w7 = (ar, w8)" by (cases "addGif env a w7")
  from assms e st sr cap dn n6 cp have cr: "cr = Inr ()"
    by (cases cr) (auto simp: x persist_def bind_io_def call_def sample_def return_io_def Let_def
        uniqueName_def savePath_def)
  from assms e st sr cap dn n6 cp cr n10 ag have ar: "ar = Inr ()"
    by (cases ar) (auto simp: x persist_def bind_io_def call_def sample_def return_io_def Let_def
        uniqueName_def savePath_def a_def)
  from assms e st sr cap dn n6 cp cr n10 ag ar
  have s': "s' = s\<lparr>world := w8,
                   trace := trace s @ [EvStat p, EvCopyFile p savePath, EvAddGif a],
                   result := (result s)\<lparr>success := True, slug := Some sl\<rparr>\<rparr>"
    by (simp add: x persist_def bind_io_def call_def sample_def return_io_def Let_def
        uniqueName_def savePath_def a_def set_success_def)
  have "persisted env a [EvStat p, EvCopyFile p savePath, EvAddGif a] w8"
    unfolding persisted_def
    apply (rule exI [of _ "[]"])
    apply (rule exI [of _ p])
    apply (rule exI [of _ savePath])
    apply (rule exI [of _ "world s"])
    apply (rule exI [of _ w3])
    apply (rule exI [of _ now])
    apply (rule exI [of _ w4])
    apply (rule exI [of _ suffix])
    apply (rule exI [of _ w5])
    apply (rule exI [of _ w6])
    apply (rule exI [of _ w7])
    using st sr dn n6 cp cr n10 ag ar
    apply (simp add: a_def uniqueName_def savePath_def stored_slugs_simps)
    done
  then show ?thesis
    unfolding persists_def s'
    by (intro exI [of _ a] exI [of _ "[EvStat p, EvCopyFile p savePath, EvAddGif a]"])
      (simp add: a_def)
qed

lemma process_file_persists:
  assumes "process_file env f s = (Inr True, s')"
  shows "persists env s s'"
proof -
  define ext where "ext = toLowerCase env (path_extname env f)"
  from assms have c: "\<not> (ext \<notin> set ALLOWED_EXTENSIONS \<and> ext \<noteq> ''.mp4'')"
    by (auto simp: process_file_def Let_def ext_def return_io_def split: if_splits)
  obtain r1 s1 where cv: "convert env f ext (ext = ''.mp4'') s = (r1, s1)"
    by (cases "convert env f ext (ext = ''.mp4'') s")
  from emitsD [OF convert_stores_nothing cv] obtain evs1 where
    t: "trace s1 = trace s @ evs1" "stored_slugs evs1 = []" by (auto dest: no_slugs)
  have k: "result s1 = result s" by (rule keepsD [OF keeps_convert cv])
  from assms c cv obtain x where "r1 = Inr x" and p: "persist env f x s1 = (Inr True, s')"
    by (cases r1) (auto simp: process_file_def Let_def ext_def [symmetric] bind_io_def)
  from persists_later [OF persist_persists [OF p] k t] show ?thesis .
qed

lemma process_files_persists:
  "process_files env files False s = (Inr True, s') \<Longrightarrow> persists env s s'"
proof (induction files arbitrary: s)
  case Nil
  then show ?case by (simp add: return_io_def)
next
  case (Cons f files)
  obtain r1 s1 where f: "process_file env f s = (r1, s1)" by (cases "process_file env f s")
  show ?case
  proof (cases r1)
    case (Inl e)
    with Cons.prems f show ?thesis by (simp add: bind_io_def)
  next
    case (Inr found)
    show ?thesis
    proof (cases found)
      case True
      with Cons.prems f Inr have "s' = s1" by (simp add: bind_io_def process_files_found)
      with f Inr True show ?thesis by (auto intro: process_file_persists)
    next
      case False
      with Cons.prems f Inr have l: "process_files env files False s1 = (Inr True, s')"
        by (simp add: bind_io_def)
      from process_file_count [OF f] Inr False obtain evs1 where
        t: "trace s1 = trace s @ evs1" "stored_slugs evs1 = []" by auto
      from process_file_outcome [OF f] Inr False have k: "result s1 = result s" by auto
      from persists_later [OF Cons.IH [OF l] k t] show ?thesis .
    qed
  qed
qed

lemma process_downloaded_persists:
  assumes "process_downloaded env d s = (Inr (), s')"
  shows "persists env s s'"
proof (cases "findFiles (path_join env) d (readdir_tree env d (world s))")
  case (Inl e)
  with assms show ?thesis
    by (simp add: process_downloaded_def list_files_def bind_io_def)
next
  case (Inr files)
  obtain r1 s1 where l: "process_files env files False s = (r1, s1)"
    by (cases "process_files env files False s")
  from assms Inr l have "r1 = Inr True \<and> s1 = s'"
    by (cases r1) (auto simp: process_downloaded_def list_files_def bind_io_def throw_io_def
        return_io_def split: if_splits)
  with l show ?thesis by (auto intro: process_files_persists)
qed

lemma staged_persists:
  assumes "bind_io (acquire env u d) (\<lambda>v. process_downloaded env d) s = (Inr (), s')"
  shows "persists env s s'"
proof -
  obtain r1 s1 where a: "acquire env u d s = (r1, s1)" by (cases "acquire env u d s")
  have k: "result s1 = result s" by (rule keepsD [OF keeps_acquire a])
  from emitsD [OF acquire_stores_nothing a] obtain evs1 where
    t: "trace s1 = trace s @ evs1" "stored_slugs evs1 = []" by (auto dest: no_slugs)
  from assms a have p: "process_downloaded env d s1 = (Inr (), s')"
    by (cases r1) (simp_all add: bind_io_def)
  from persists_later [OF process_downloaded_persists [OF p] k t] show ?thesis .
qed

lemma process_url_persisted:
  assumes "process_url env u (w0, tr0) = (r, w1, tr1)"
  shows "(success r \<longleftrightarrow> error r = None) \<and>
         (success r \<longrightarrow>
            (\<exists>a steps tempDir wa. slug r = Some (asset_slug a) \<and>
               tr1 = tr0 @ steps @ [EvRm tempDir] \<and> persisted env a steps wa \<and>
               w1 = snd (rm env tempDir wa))) \<and>
         (\<not> success r \<longrightarrow> (\<exists>message. error r = Some message) \<and> slug r = None)"
proof -
  define fresh where "fresh = \<lparr>url = u, success = False, slug = None, error = None\<rparr>"
  define s where "s = \<lparr>world = w0, trace = tr0, result = fresh\<rparr>"
  have failed: ?thesis if "import_url env u s = (Inl e, s')" "result s' = fresh" for e s'
    using assms that by (simp add: process_url_def s_def [symmetric] fresh_def [symmetric])
      (auto simp: fresh_def)
  show ?thesis
  proof (cases "url_hostname env u")
    case None
    then show ?thesis
      by (intro failed [of "''Invalid URL''" s]) (simp_all add: import_url_def throw_io_def s_def)
  next
    case (Some h)
    show ?thesis
    proof (cases "isAllowed (validDomains env) h")
      case False
      with Some show ?thesis
        by (intro failed [of "''Domain not whitelisted''" s])
          (simp_all add: import_url_def throw_io_def s_def)
    next
      case True
      obtain ident wn where n: "nanoid env None w0 = (ident, wn)"
        by (cases "nanoid env None w0")
      define d where "d = path_join env (tmpdir env) (''gifselector-import-'' @ ident)"
      obtain mr wm where m: "mkdir env d wn = (mr, wm)" by (cases "mkdir env d wn")
      show ?thesis
      proof (cases mr)
        case (Inl e)
        with Some True n m show ?thesis
          by (intro failed [of e "s\<lparr>world := wm, trace := trace s @ [EvMkdir d]\<rparr>"])
            (simp_all add: import_url_def bind_io_def sample_def call_def Let_def d_def s_def)
      next
        case (Inr v)
        define s0 where "s0 = \<lparr>world = wm, trace = tr0 @ [EvMkdir d], result = fresh\<rparr>"
        obtain r1 s1 where
          b: "bind_io (acquire env u d) (\<lambda>v. process_downloaded env d) s0 = (r1, s1)"
          by (cases "bind_io (acquire env u d) (\<lambda>v. process_downloaded env d) s0")
        from m Inr have m': "mkdir env d wn = (Inr (), wm)" by simp
        from process_url_workspace [OF Some True n d_def m' b [unfolded s0_def fresh_def]] assms
        have e: "r = (case r1 of Inl message \<Rightarrow> (result s1)\<lparr>error := Some message\<rparr>
                      | Inr v \<Rightarrow> result s1)"
          "w1 = snd (rm env d (world s1))" "tr1 = trace s1 @ [EvRm d]"
          by simp_all
        show ?thesis
        proof (cases r1)
          case (Inl message)
          with staged_outcome [OF b] have "result s1 = fresh" by (auto simp: s0_def)
          with e(1) Inl show ?thesis by (simp add: fresh_def)
        next
          case (Inr v)
          with b have "persists env s0 s1" by (auto intro: staged_persists)
          then obtain a evs where
            p: "trace s1 = trace s0 @ evs" "persisted env a evs (world s1)"
               "result s1 = (result s0)\<lparr>success := True, slug := Some (asset_slug a)\<rparr>"
            unfolding persists_def by blast
          have "persists env \<lparr>world = wm, trace = tr0, result = fresh\<rparr> s1"
            by (rule persists_later [where pre = "[EvMkdir d]", OF \<open>persists env s0 s1\<close>])
              (simp_all add: s0_def stored_slugs_simps)
          then obtain a steps where
            q: "trace s1 = tr0 @ steps" "persisted env a steps (world s1)"
               "result s1 = fresh\<lparr>success := True, slug := Some (asset_slug a)\<rparr>"
            unfolding persists_def by auto
          from e Inr q have "slug r = Some (asset_slug a)" "success r" "error r = None"
            "tr1 = tr0 @ steps @ [EvRm d]"
            by (simp_all add: fresh_def)
          with q(2) e(2) show ?thesis by blast
        qed
      qed
    qed
  qed
qed

lemma process_urls_take:
  "process_urls env us st = (rs, st') \<Longrightarrow> i < length us \<Longrightarrow>
   \<exists>st0 st1. process_urls env (take i us) st = (take i rs, st0) \<and>
             process_url env (us ! i) st0 = (rs ! i, st1) \<and>
             process_urls env (drop (Suc i) us) st1 = (drop (Suc i) rs, st')"
proof (induction us arbitrary: i st rs st')
  case Nil
  then show ?case by simp
next
  case (Cons u us)
  obtain r st1 where p: "process_url env u st = (r, st1)" by (cases "process_url env u st")
  obtain rs1 st2 where q: "process_urls env us st1 = (rs1, st2)"
    by (cases "process_urls env us st1")
  from Cons.prems(1) p q have e: "rs = r # rs1" "st' = st2" by auto
  show ?case
  proof (cases i)
    case 0
    with p q e show ?thesis by (intro exI [of _ st] exI [of _ st1]) simp
  next
    case (Suc j)
    with Cons.prems(2) have "j < length us" by simp
    from Cons.IH [OF q this] obtain sa sb where
      "process_urls env (take j us) st1 = (take j rs1, sa)"
      "process_url env (us ! j) sa = (rs1 ! j, sb)"
      "process_urls env (drop (Suc j) us) sb = (drop (Suc j) rs1, st2)"
      by blast
    with p e Suc show ?thesis by (intro exI [of _ sa] exI [of _ sb]) simp
  qed
qed

text \<open>
  C10. Every entry of \<^verbatim>\<open>results\<close> is the entry of its own URL: the entry at index \<open>i\<close>
  is what processing the URL at index \<open>i\<close> returns, from the world and the trace left by the
  URLs before it, and the events \<open>evs\<close> of that processing are a segment of the trace of the
  request. The entry is a success exactly when it has no error. A success carries a slug,
  and this slug is the slug of the asset persisted during the processing of this very URL:
  within \<open>evs\<close> the final file was copied into the upload directory, the slug drawn by
  \<^verbatim>\<open>nanoid(10)\<close> and the asset with this slug recorded by \<^verbatim>\<open>addGif\<close>, both calls succeeding,
  no other asset being handed to \<^verbatim>\<open>addGif\<close> for this URL, and the world after the URL is
  the world after that \<^verbatim>\<open>addGif\<close> and the removal of the workspace. The slug has ten
  characters where \<^verbatim>\<open>nanoid(10)\<close> gives ten characters. A failure carries an error message and
  no slug.
\<close>

theorem results_well_formed:
  assumes "import_handler env req_body w = (resp, w', tr)"
    and "body resp = ResultsBody results" and "i < length results"
  shows "\<exists>urls w0 tr0 w1 evs later.
           req_body ''urls'' = Some (JArr urls) \<and> length urls = length results \<and>
           process_urls env (take i urls) (w, []) = (take i results, w0, tr0) \<and>
           process_url env (urls ! i) (w0, tr0) = (results ! i, w1, tr0 @ evs) \<and>
           tr = tr0 @ evs @ later \<and>
           (success (results ! i) \<longleftrightarrow> error (results ! i) = None) \<and>
           (success (results ! i) \<longrightarrow>
              (\<exists>a steps tempDir wa.
                 slug (results ! i) = Some (asset_slug a) \<and>
                 evs = steps @ [EvRm tempDir] \<and> persisted env a steps wa \<and>
                 w1 = snd (rm env tempDir wa) \<and>
                 ((\<forall>w. length (fst (nanoid env (Some 10) w)) = 10) \<longrightarrow>
                    length (asset_slug a) = 10))) \<and>
           (\<not> success (results ! i) \<longrightarrow>
              (\<exists>message. error (results ! i) = Some message) \<and> slug (results ! i) = None)"
proof -
  from assms(1,2) obtain urls where u: "req_body ''urls'' = Some (JArr urls)"
    by (auto simp: import_handler_def split: option.splits json.splits prod.splits)
  with assms(1,2) have run: "process_urls env urls (w, []) = (results, w', tr)"
    by (auto simp: import_handler_def split: prod.splits)
  from process_urls_nth [OF run] have len: "length urls = length results" by simp
  with assms(3) have i: "i < length urls" by simp
  from process_urls_take [OF run i] obtain w0 tr0 w1 tr1 where
    1: "process_urls env (take i urls) (w, []) = (take i results, w0, tr0)"
    and 2: "process_url env (urls ! i) (w0, tr0) = (results ! i, w1, tr1)"
    and 3: "process_urls env (drop (Suc i) urls) (w1, tr1) = (drop (Suc i) results, w', tr)"
    by auto
  from process_url_spec [OF 2] obtain evs where evs: "tr1 = tr0 @ evs" by auto
  from process_urls_spec [OF 3] obtain later where later: "tr = tr1 @ later" by auto
  note shape = process_url_persisted [OF 2]
  have stored: "\<exists>a steps tempDir wa.
                 slug (results ! i) = Some (asset_slug a) \<and>
                 evs = steps @ [EvRm tempDir] \<and> persisted env a steps wa \<and>
                 w1 = snd (rm env tempDir wa) \<and>
                 ((\<forall>w. length (fst (nanoid env (Some 10) w)) = 10) \<longrightarrow>
                    length (asset_slug a) = 10)"
    if "success (results ! i)"
  proof -
    from shape that obtain a steps tempDir wa where
      s: "slug (results ! i) = Some (asset_slug a)" "tr1 = tr0 @ steps @ [EvRm tempDir]"
         "persisted env a steps wa" "w1 = snd (rm env tempDir wa)"
      by blast
    from s(3) obtain w6 where "asset_slug a = fst (nanoid env (Some 10) w6)"
      unfolding persisted_def by (metis fst_conv)
    then have "(\<forall>w. length (fst (nanoid env (Some 10) w)) = 10) \<longrightarrow> length (asset_slug a) = 10"
      by simp
    with s evs show ?thesis by auto
  qed
  from later evs have L: "tr = tr0 @ evs @ later" by simp
  from shape have A: "success (results ! i) \<longleftrightarrow> error (results ! i) = None" by blast
  from stored have B: "success (results ! i) \<longrightarrow>
              (\<exists>a steps tempDir wa.
                 slug (results ! i) = Some (asset_slug a) \<and>
                 evs = steps @ [EvRm tempDir] \<and> persisted env a steps wa \<and>
                 w1 = snd (rm env tempDir wa) \<and>
                 ((\<forall>w. length (fst (nanoid env (Some 10) w)) = 10) \<longrightarrow>
                    length (asset_slug a) = 10))"
    by blast
  from shape have C: "\<not> success (results ! i) \<longrightarrow>
              (\<exists>message. error (results ! i) = Some message) \<and> slug (results ! i) = None"
    by blast
  show ?thesis
    apply (rule exI [of _ urls])
    apply (rule exI [of _ w0])
    apply (rule exI [of _ tr0])
    apply (rule exI [of _ w1])
    apply (rule exI [of _ evs])
    apply (rule exI [of _ later])
    using u len 1 2 [unfolded evs] L A B C
    apply (intro conjI)
    apply assumption+
    done
qed

theorem results_well_formed_witness:
  "(\<exists>resp w' tr bad good.
      import_handler demo_env two_urls_body 0 = (resp, w', tr) \<and>
      body resp = ResultsBody [bad, good] \<and>
      \<not> success bad \<and> error bad = Some ''Invalid URL'' \<and> slug bad = None \<and>
      success good \<and> error good = None \<and>
      (\<exists>a. slug good = Some (asset_slug a) \<and> EvAddGif a \<in> set tr \<and>
           length (asset_slug a) = 10))"
proof -
  obtain resp w' tr where run: "import_handler demo_env two_urls_body 0 = (resp, w', tr)"
    by (cases "import_handler demo_env two_urls_body 0") auto
  with two_urls_run obtain bad good where
    b: "body resp = ResultsBody [bad, good]"
      and f: "\<not> success bad" "error bad = Some ''Invalid URL''"
      and d: "success good"
    by auto
  have n: "\<forall>w. length (fst (nanoid demo_env (Some 10) w)) = 10"
    by (simp add: demo_env_def)
  have i0: "0 < length [bad, good]" and i1: "1 < length [bad, good]" by simp_all
  have g0: "[bad, good] ! 0 = bad" and g1: "[bad, good] ! 1 = good" by simp_all
  from results_well_formed [OF run b i0, unfolded g0] f have 1: "slug bad = None"
    by (elim exE conjE) simp
  from results_well_formed [OF run b i1, unfolded g1] obtain tr0 evs later w1 where
    t: "tr = tr0 @ evs @ later"
    and c1: "success good \<longleftrightarrow> error good = None"
    and c2: "success good \<longrightarrow>
              (\<exists>a steps tempDir wa.
                 slug good = Some (asset_slug a) \<and>
                 evs = steps @ [EvRm tempDir] \<and> persisted demo_env a steps wa \<and>
                 w1 = snd (rm demo_env tempDir wa) \<and>
                 ((\<forall>w. length (fst (nanoid demo_env (Some 10) w)) = 10) \<longrightarrow>
                    length (asset_slug a) = 10))"
    by (elim exE conjE) (rule that, assumption+)
  from c2 d have "\<exists>a steps tempDir wa.
                 slug good = Some (asset_slug a) \<and>
                 evs = steps @ [EvRm tempDir] \<and> persisted demo_env a steps wa \<and>
                 w1 = snd (rm demo_env tempDir wa) \<and>
                 ((\<forall>w. length (fst (nanoid demo_env (Some 10) w)) = 10) \<longrightarrow>
                    length (asset_slug a) = 10)"
    by (rule mp)
  then obtain a steps tempDir wa where
    s0: "slug good = Some (asset_slug a)" "evs = steps @ [EvRm tempDir]"
       "persisted demo_env a steps wa"
       "(\<forall>w. length (fst (nanoid demo_env (Some 10) w)) = 10) \<longrightarrow> length (asset_slug a) = 10"
    by (elim exE conjE) (rule that, assumption+)
  from s0(4) n have "length (asset_slug a) = 10" by (rule mp)
  note s = s0(1-3) this
  from s(3) have "EvAddGif a \<in> set steps" unfolding persisted_def by auto
  with t s(2) have 3: "EvAddGif a \<in> set tr" by simp
  from c1 d have 2: "error good = None" by simp
  from s(1,4) 3 have "\<exists>a. slug good = Some (asset_slug a) \<and> EvAddGif a \<in> set tr \<and>
           length (asset_slug a) = 10"
    by blast
  with run b f d 1 2 show ?thesis by blast
qed

end
